theory Spec2Isabelle
  imports Main "HOL-Library.Word"
begin

unbundle bit_operations_syntax

section \<open>Bytes, words, errors\<close>

text \<open>
  The Go types \<^verbatim>\<open>Byte\<close> (uint8), \<^verbatim>\<open>Word\<close> and \<^verbatim>\<open>register16\<close> (uint16),
  \<^verbatim>\<open>addressBlock\<close> and \<^verbatim>\<open>AddressKeys\<close> (uint16) and \<^verbatim>\<open>opcode\<close> are machine words;
  arithmetic on them wraps around.
\<close>

type_synonym Byte = "8 word"
type_synonym Word = "16 word"
type_synonym addressBlock = "16 word"
type_synonym AddressKeys = "16 word"
type_synonym opcode = "16 word"

text \<open>
  Every \<^verbatim>\<open>panic\<close> of the source, and every run-time fault of Go that the modelled code
  can reach, is a value of this type. A call to \<^verbatim>\<open>Lock\<close> on a mutex that another worker
  holds does not return before that worker releases it; in this sequential model no other
  worker runs, so such a call is the value \<open>Blocked\<close>.
\<close>

datatype error =
    UnhandledMemory string Word string
  | UnauthorizedRead Word
  | UnauthorizedWrite Word Byte
  | UnhandledQueuedWrite Word
  | UnhandledIoRead Word
  | IndexOutOfRange
  | NilPointer
  | Blocked addressBlock
  | UnlockOfUnlockedMutex addressBlock

definition bindE :: "error + 'a \<Rightarrow> ('a \<Rightarrow> error + 'b) \<Rightarrow> error + 'b" where
  "bindE x g = (case x of Inl e \<Rightarrow> Inl e | Inr v \<Rightarrow> g v)"

text \<open>Indexing a Go slice panics outside its length.\<close>

definition index :: "'a list \<Rightarrow> Word \<Rightarrow> error + 'a" where
  "index xs i = (if unat i < length xs then Inr (xs ! unat i) else Inl IndexOutOfRange)"

definition store :: "'a list \<Rightarrow> Word \<Rightarrow> 'a \<Rightarrow> error + 'a list" where
  "store xs i v = (if unat i < length xs then Inr (xs[unat i := v]) else Inl IndexOutOfRange)"

section \<open>Registers, flags and instructions\<close>

text \<open>
  Both \<^verbatim>\<open>type cpu struct\<close> (package main, src/unnamed/part_000) and
  \<^verbatim>\<open>type Cpu struct\<close> (package jibi, src/jibi/cpu.go) start with the same fields:
  the eight 8-bit registers, \<^verbatim>\<open>sp\<close>, \<^verbatim>\<open>pc\<close>, the cycle counters \<^verbatim>\<open>m\<close> and \<^verbatim>\<open>t\<close>
  and the instruction buffer \<^verbatim>\<open>inst\<close>. They are the base record; each struct extends it.
\<close>

record instruction =
  inst_o :: opcode
  inst_p :: "Byte list"

record cpu_regs =
  reg_a :: Byte
  reg_b :: Byte
  reg_c :: Byte
  reg_d :: Byte
  reg_e :: Byte
  reg_f :: Byte
  reg_h :: Byte
  reg_l :: Byte
  sp :: Word
  pc :: Word
  m_cycles :: Byte
  t_cycles :: Byte
  inst :: instruction

text \<open>An entry of the opcode table: \<^verbatim>\<open>command{b, t, f}\<close>.\<close>

record 's command =
  cmd_b :: Byte
  cmd_t :: Byte
  cmd_f :: "'s \<Rightarrow> error + 's"

definition flagZ :: Byte where "flagZ = 0x80"
definition flagN :: Byte where "flagN = 0x40"
definition flagH :: Byte where "flagH = 0x20"
definition flagC :: Byte where "flagC = 0x10"

text \<open>
  Modelled from the spec: the type \<^verbatim>\<open>register8\<close> and its methods \<^verbatim>\<open>set\<close>,
  \<^verbatim>\<open>setFlag\<close>, \<^verbatim>\<open>resetFlag\<close> and \<^verbatim>\<open>getFlag\<close> are not in src. The spec: a register
  holds a byte; "any write to F masks the low nibble to zero"; flags are got, set and
  reset "by bit mask".
\<close>

definition set_f :: "'a cpu_regs_scheme \<Rightarrow> Byte \<Rightarrow> 'a cpu_regs_scheme" where
  "set_f c v = c\<lparr>reg_f := v AND 0xF0\<rparr>"

definition setFlag :: "'a cpu_regs_scheme \<Rightarrow> Byte \<Rightarrow> 'a cpu_regs_scheme" where
  "setFlag c fl = c\<lparr>reg_f := (reg_f c OR fl) AND 0xF0\<rparr>"

definition resetFlag :: "'a cpu_regs_scheme \<Rightarrow> Byte \<Rightarrow> 'a cpu_regs_scheme" where
  "resetFlag c fl = c\<lparr>reg_f := (reg_f c AND NOT fl) AND 0xF0\<rparr>"

definition getFlag :: "'a cpu_regs_scheme \<Rightarrow> Byte \<Rightarrow> bool" where
  "getFlag c fl = (reg_f c AND fl = fl)"

section \<open>ALU primitives and jumps (src/unnamed/part_000)\<close>

text \<open>
  \<^verbatim>\<open>func (c *cpu) sub(a, b uint8) uint8\<close>. In Go \<^verbatim>\<open>&\<close> binds tighter than
  \<^verbatim>\<open>>=\<close>, so the half-carry test is \<^verbatim>\<open>(a&0x0F) >= (b&0x0F)\<close>.
\<close>

definition sub :: "'a cpu_regs_scheme \<Rightarrow> Byte \<Rightarrow> Byte \<Rightarrow> Byte \<times> 'a cpu_regs_scheme" where
  "sub c a b =
     (let r = a - b;
          c1 = set_f c 0;
          c2 = (if r = 0 then setFlag c1 flagZ else c1);
          c3 = setFlag c2 flagN;
          c4 = (if a AND 0x0F \<ge> b AND 0x0F then setFlag c3 flagH else c3);
          c5 = (if a \<ge> b then setFlag c4 flagC else c4)
      in (r, c5))"

text \<open>
  \<^verbatim>\<open>func (c *cpu) add(a, b uint8) uint8\<close>. \<^verbatim>\<open>&\<close> binds tighter than \<^verbatim>\<open>+\<close>, and the
  nibble sum is a uint8 sum (at most 30, it cannot wrap); the carry test widens both
  operands to uint16 first.
\<close>

definition add :: "'a cpu_regs_scheme \<Rightarrow> Byte \<Rightarrow> Byte \<Rightarrow> Byte \<times> 'a cpu_regs_scheme" where
  "add c a b =
     (let r = a + b;
          c1 = set_f c 0;
          c2 = (if r = 0 then setFlag c1 flagZ else c1);
          c3 = (if (a AND 0x0F) + (b AND 0x0F) > 0x0F then setFlag c2 flagH else c2);
          c4 = (if (ucast a :: Word) + ucast b > 0xFF then setFlag c3 flagC else c3)
      in (r, c4))"

text \<open>
  \<^verbatim>\<open>func (c *cpu) jr(n int8)\<close>. The operand is a signed byte; \<^verbatim>\<open>register16(-n)\<close> and
  \<^verbatim>\<open>register16(n)\<close> convert an int8 to uint16 by sign extension, and \<^verbatim>\<open>-n\<close> is
  computed in int8 (so \<^verbatim>\<open>-(-128)\<close> is \<^verbatim>\<open>-128\<close>). Both branches add to \<^verbatim>\<open>pc\<close>.
\<close>

definition jr :: "'a cpu_regs_scheme \<Rightarrow> Byte \<Rightarrow> 'a cpu_regs_scheme" where
  "jr c n =
     (if sint n < 0 then c\<lparr>pc := pc c + (scast (- n) :: Word)\<rparr>
      else c\<lparr>pc := pc c + (scast n :: Word)\<rparr>)"

definition jrF :: "'a cpu_regs_scheme \<Rightarrow> Byte \<Rightarrow> Byte \<Rightarrow> 'a cpu_regs_scheme" where
  "jrF c fl n = (if getFlag c fl = True then jr c n else c)"

definition jrNF :: "'a cpu_regs_scheme \<Rightarrow> Byte \<Rightarrow> Byte \<Rightarrow> 'a cpu_regs_scheme" where
  "jrNF c fl n = (if getFlag c fl = False then jr c n else c)"

definition jp :: "'a cpu_regs_scheme \<Rightarrow> Word \<Rightarrow> 'a cpu_regs_scheme" where
  "jp c addr = c\<lparr>pc := addr\<rparr>"

text \<open>
  \<^verbatim>\<open>func (c *cpu) reset()\<close>: every register is set to 0 (\<^verbatim>\<open>c.f.set(0)\<close> through the
  flag mask), \<^verbatim>\<open>sp\<close> to 0xFFFE, \<^verbatim>\<open>pc\<close> to 0 and both counters to 0.
\<close>

definition reset :: "'a cpu_regs_scheme \<Rightarrow> 'a cpu_regs_scheme" where
  "reset c =
     (set_f (c\<lparr>reg_a := 0, reg_b := 0, reg_c := 0, reg_d := 0, reg_e := 0\<rparr>) 0)
       \<lparr>reg_h := 0, reg_l := 0, sp := 0xFFFE, pc := 0x0000, m_cycles := 0, t_cycles := 0\<rparr>"

section \<open>The stand-alone cpu of package main (src/unnamed/part_000)\<close>

text \<open>
  \<^verbatim>\<open>type cpu struct\<close>: the base fields and the memory controller \<^verbatim>\<open>mc\<close>. The type
  \<^verbatim>\<open>mmu\<close> of \<^verbatim>\<open>mc\<close> is not in src: it is the type parameter \<open>'mc\<close>, and its methods
  \<^verbatim>\<open>readByte\<close> and \<^verbatim>\<open>unloadBios\<close> are parameters of the functions that call them. The
  ticker fields \<^verbatim>\<open>mClock\<close> and \<^verbatim>\<open>mTicker\<close> are wall-clock time and are left out.
\<close>

record 'mc cpu = cpu_regs +
  mc :: 'mc

text \<open>
  Modelled from the spec: \<^verbatim>\<open>newInstruction\<close> is not in src. An instruction is an opcode
  and its immediate payload of 0 to 2 bytes.
\<close>

definition newInstruction :: "opcode \<Rightarrow> Byte list \<Rightarrow> instruction" where
  "newInstruction op ps = \<lparr>inst_o = op, inst_p = ps\<rparr>"

text \<open>
  \<^verbatim>\<open>func newCpu(mc mmu) *cpu\<close>: the registers are fresh (zero), and the struct literal sets
  \<^verbatim>\<open>sp: 0xFFFE, pc: 0x0000\<close>; \<^verbatim>\<open>m\<close>, \<^verbatim>\<open>t\<close> and \<^verbatim>\<open>inst\<close> keep Go's zero values.
\<close>

definition newCpu :: "'mc \<Rightarrow> 'mc cpu" where
  "newCpu mc0 =
     \<lparr>reg_a = 0, reg_b = 0, reg_c = 0, reg_d = 0, reg_e = 0, reg_f = 0, reg_h = 0, reg_l = 0,
      sp = 0xFFFE, pc = 0x0000, m_cycles = 0, t_cycles = 0,
      inst = \<lparr>inst_o = 0, inst_p = []\<rparr>, mc = mc0\<rparr>"

text \<open>
  \<^verbatim>\<open>func (c *cpu) fetch()\<close>. The opcode table \<^verbatim>\<open>commandTable\<close> is not in src: it is the
  parameter \<open>tbl\<close>, a Go map (\<^verbatim>\<open>cmd, ok := commandTable[op]\<close>), so an opcode with no
  entry yields the zero command, whose \<^verbatim>\<open>b\<close> is 0. The loop appends \<^verbatim>\<open>command.b\<close>
  operand bytes.
\<close>

fun fetch_operands_main :: "('mc \<Rightarrow> Word \<Rightarrow> Byte) \<Rightarrow> nat \<Rightarrow> 'mc cpu \<Rightarrow> 'mc cpu" where
  "fetch_operands_main rd 0 c = c"
| "fetch_operands_main rd (Suc n) c =
     fetch_operands_main rd n
       (c\<lparr>inst := (inst c)\<lparr>inst_p := inst_p (inst c) @ [rd (mc c) (pc c)]\<rparr>,
          pc := pc c + 1\<rparr>)"

definition fetch_main ::
  "('mc \<Rightarrow> Word \<Rightarrow> Byte) \<Rightarrow> (opcode \<rightharpoonup> 'mc cpu command) \<Rightarrow> 'mc cpu \<Rightarrow> 'mc cpu" where
  "fetch_main rd tbl c =
     (let op = (ucast (rd (mc c) (pc c)) :: opcode);
          c1 = c\<lparr>pc := pc c + 1\<rparr>;
          op2 = (if op = 0xCB then 0xCB00 + ucast (rd (mc c1) (pc c1)) else op);
          c2 = (if op = 0xCB then c1\<lparr>pc := pc c1 + 1\<rparr> else c1);
          n = (case tbl op2 of None \<Rightarrow> 0 | Some cmd \<Rightarrow> cmd_b cmd);
          c3 = c2\<lparr>inst := newInstruction op2 []\<rparr>
      in fetch_operands_main rd (unat n) c3)"

text \<open>
  \<^verbatim>\<open>func (c *cpu) execute()\<close>: the boot ROM is unloaded when \<^verbatim>\<open>pc\<close> is 0x0100; the
  executor runs only under \<^verbatim>\<open>if cmd, ok := commandTable[c.inst.o]; ok\<close>, and there is no
  \<^verbatim>\<open>else\<close> branch.
\<close>

definition execute_main ::
  "('mc \<Rightarrow> 'mc) \<Rightarrow> (opcode \<rightharpoonup> 'mc cpu command) \<Rightarrow> 'mc cpu \<Rightarrow> error + 'mc cpu" where
  "execute_main unloadBios tbl c =
     (let c1 = (if pc c = 0x0100 then c\<lparr>mc := unloadBios (mc c)\<rparr> else c)
      in case tbl (inst_o (inst c1)) of
           Some cmd \<Rightarrow>
             bindE (cmd_f cmd c1)
               (\<lambda>c2. Inr (c2\<lparr>m_cycles := m_cycles c2 + cmd_t cmd * 4,
                              t_cycles := t_cycles c2 + cmd_t cmd\<rparr>))
         | None \<Rightarrow> Inr c1)"

text \<open>\<^verbatim>\<open>func (c *cpu) step() uint8\<close>: the returned value is \<^verbatim>\<open>c.t\<close> of the final state.\<close>

definition step_main ::
  "('mc \<Rightarrow> Word \<Rightarrow> Byte) \<Rightarrow> ('mc \<Rightarrow> 'mc) \<Rightarrow> (opcode \<rightharpoonup> 'mc cpu command) \<Rightarrow> 'mc cpu
     \<Rightarrow> error + 'mc cpu" where
  "step_main rd unloadBios tbl c =
     execute_main unloadBios tbl (fetch_main rd tbl (c\<lparr>m_cycles := 0, t_cycles := 0\<rparr>))"

text \<open>
  Modelled from the spec: the opcode table is not in src. Its entry for opcode 0x20 is
  JR NZ,e8: one operand byte, a base cost \<open>tc\<close> (the not-taken cost), and an executor
  that takes the relative jump \<^verbatim>\<open>jrNF(flagZ, int8(p[0]))\<close> when Z is clear.
\<close>

definition jr_nz_entry :: "Byte \<Rightarrow> 'mc cpu command" where
  "jr_nz_entry tc =
     \<lparr>cmd_b = 1, cmd_t = tc,
      cmd_f = (\<lambda>c. bindE (index (inst_p (inst c)) 0) (\<lambda>n. Inr (jrNF c flagZ n)))\<rparr>"

text \<open>The program of the scenario: ROM[0] = 0x20, ROM[1] = 0xFB, every other byte 0.\<close>

definition jr_program :: "unit \<Rightarrow> Word \<Rightarrow> Byte" where
  "jr_program u a = (if a = 0 then 0x20 else if a = 1 then 0xFB else 0)"

section \<open>The memory management unit (package jibi, src/jibi/cpu.go)\<close>

definition AddrRom :: Word where "AddrRom = 0x0000"
definition AddrVRam :: Word where "AddrVRam = 0x8000"
definition AddrERam :: Word where "AddrERam = 0xA000"
definition AddrRam :: Word where "AddrRam = 0xC000"
definition AddrOam :: Word where "AddrOam = 0xFE00"
definition AddrOamEnd :: Word where "AddrOamEnd = 0xFEA0"
definition AddrP1 :: Word where "AddrP1 = 0xFF00"
definition AddrIF :: Word where "AddrIF = 0xFF0F"
definition AddrGpuRegs :: Word where "AddrGpuRegs = 0xFF40"
definition AddrGpuRegsEnd :: Word where "AddrGpuRegsEnd = 0xFF4C"
definition AddrZero :: Word where "AddrZero = 0xFF80"
definition AddrIE :: Word where "AddrIE = 0xFFFF"

text \<open>
  The address blocks. In the const block \<^verbatim>\<open>abNil\<close> is \<^verbatim>\<open>iota\<close> = 0 and \<^verbatim>\<open>abRom\<close> is
  \<^verbatim>\<open>1 << iota\<close> on the second line, where \<^verbatim>\<open>iota\<close> is 1: the blocks are the powers of
  two from 2 to 1024.
\<close>

definition abNil :: addressBlock where "abNil = 0"
definition abRom :: addressBlock where "abRom = 2"
definition abVRam :: addressBlock where "abVRam = 4"
definition abERam :: addressBlock where "abERam = 8"
definition abRam :: addressBlock where "abRam = 16"
definition abOam :: addressBlock where "abOam = 32"
definition abP1 :: addressBlock where "abP1 = 64"
definition abIF :: addressBlock where "abIF = 128"
definition abGpuRegs :: addressBlock where "abGpuRegs = 256"
definition abZero :: addressBlock where "abZero = 512"
definition abIE :: addressBlock where "abIE = 1024"
definition abLast :: addressBlock where "abLast = abIE"

text \<open>
  \<^verbatim>\<open>type mmio struct\<close>: a memory-mapped port. Its own mutex is taken and released
  inside each method and is not part of the state.
\<close>

record mmio =
  io_addr :: Word
  io_value :: Byte
  io_read :: Byte
  io_write :: Byte
  io_queued :: bool

definition newMmio :: "Word \<Rightarrow> mmio" where
  "newMmio a = \<lparr>io_addr = a, io_value = 0, io_read = 0, io_write = 0, io_queued = False\<rparr>"

definition mmio_readByte :: "mmio \<Rightarrow> bool \<Rightarrow> Byte" where
  "mmio_readByte io owner = (if owner then io_value io else io_read io)"

definition mmio_writeByte :: "mmio \<Rightarrow> Byte \<Rightarrow> bool \<Rightarrow> mmio" where
  "mmio_writeByte io v owner =
     (if owner then
        (let io1 = io\<lparr>io_value := v\<rparr>;
             io2 = io1\<lparr>io_read := io_value io1\<rparr>
         in if \<not> io_queued io2 then io2\<lparr>io_write := io_value io2\<rparr> else io2)
      else io\<lparr>io_queued := True, io_write := v\<rparr>)"

definition mmio_readIoByte :: "mmio \<Rightarrow> bool \<Rightarrow> error + ((Byte \<times> bool) \<times> mmio)" where
  "mmio_readIoByte io owner =
     (if owner then Inr ((io_write io, io_queued io), io\<lparr>io_queued := False\<rparr>)
      else Inl (UnhandledIoRead (io_addr io)))"

text \<open>
  \<^verbatim>\<open>type Mmu struct\<close>. \<^verbatim>\<open>locks\<close> is a slice of mutex pointers indexed by address block:
  \<open>None\<close> is a nil pointer, \<open>Some True\<close> a locked mutex, \<open>Some False\<close> a free one.
  Modelled from the spec: the type \<^verbatim>\<open>Keypad\<close> is not in src. The keypad is another
  worker (a bus master); the Mmu only sends it the key-check command when a non-owner
  writes to P1. \<^verbatim>\<open>kp\<close> is a pointer, nil until \<^verbatim>\<open>SetKeypad\<close> is called: here it is
  \<open>True\<close> when a keypad is attached, and the command sent through a nil pointer is the
  fault \<open>NilPointer\<close>.
\<close>

record Mmu =
  rom :: "Byte list"
  vram :: "Byte list"
  ram :: "Byte list"
  oam :: "Byte list"
  gpuregs :: "Byte list"
  zero :: "Byte list"
  ie :: Byte
  ioIF :: mmio
  ioP1 :: mmio
  locks :: "addressBlock \<Rightarrow> bool option"
  kp :: bool

text \<open>
  \<^verbatim>\<open>func NewMmu(cart *Cartridge) *Mmu\<close>. The cartridge type is not in src; only its
  field \<^verbatim>\<open>Rom\<close> is read, so the cartridge is its ROM bytes (\<open>None\<close> for a nil cartridge).
  The loop \<^verbatim>\<open>for i := 1; i <= abLast; i = i << 1\<close> makes one mutex per power of two up
  to 1024.
\<close>

definition NewMmu :: "Byte list option \<Rightarrow> Mmu" where
  "NewMmu cart =
     \<lparr>rom = (case cart of None \<Rightarrow> [] | Some r \<Rightarrow> r),
      vram = replicate 0x2000 0,
      ram = replicate 0x2000 0,
      oam = replicate 0xA0 0,
      gpuregs = replicate 12 0,
      zero = replicate 0x100 0,
      ie = 0,
      ioIF = newMmio AddrIF,
      ioP1 = newMmio AddrP1,
      locks = (\<lambda>i. if i \<in> set [1, 2, 4, 8, 16, 32, 64, 128, 256, 512, 1024]
                    then Some False else None),
      kp = False\<rparr>"

text \<open>\<^verbatim>\<open>func (m *Mmu) SetKeypad(kp *Keypad)\<close>, called with a keypad.\<close>

definition SetKeypad :: "Mmu \<Rightarrow> Mmu" where
  "SetKeypad m = m\<lparr>kp := True\<rparr>"

text \<open>\<^verbatim>\<open>func (m *Mmu) getAddressInfo(addr Worder) (string, bool)\<close>.\<close>

definition getAddressInfo :: "Word \<Rightarrow> string \<times> bool" where
  "getAddressInfo a =
     (if 0x9C00 \<le> a \<and> a \<le> 0x9FFF then (''Background Map Data 2'', False)
      else if 0xFEA0 \<le> a \<and> a \<le> 0xFEFF then (''unusable memory'', True)
      else if a = 0xFF00 then
        (''Register for reading joy pad info and determining system type. (R/W)'', False)
      else if a = 0xFF01 then (''Serial transfer data (R/W)'', True)
      else if a = 0xFF02 then (''SIO control (R/W)'', True)
      else if a = 0xFF03 then (''no clue'', True)
      else if a = 0xFF04 then (''DIV'', True)
      else if a = 0xFF05 then (''TIMA'', True)
      else if a = 0xFF06 then (''TMA'', True)
      else if a = 0xFF07 then (''TAC'', True)
      else if 0xFF08 \<le> a \<and> a \<le> 0xFF0E then (''no clue'', True)
      else if a = 0xFF10 then (''Sound Mode 1 register, Sweep register (R/W)'', True)
      else if a = 0xFF11 then
        (''Sound Mode 1 register, Sound length/Wave pattern duty (R/W)'', True)
      else if a = 0xFF12 then (''Sound Mode 1 register, Envelope (R/W)'', True)
      else if a = 0xFF13 then (''Sound Mode 1 register, Frequency lo (W)'', True)
      else if a = 0xFF14 then (''Sound Mode 1 register, Frequency hi (R/W)'', True)
      else if a = 0xFF17 then (''Sound Mode 2 register, envelope (R/W)'', True)
      else if a = 0xFF19 then (''Sound Mode 2 register, frequency'', True)
      else if a = 0xFF1A then (''Sound Mode 3 register, Sound on/off (R/W)'', True)
      else if a = 0xFF20 then (''Sound Mode 4 register, sound length (R/W)'', True)
      else if a = 0xFF21 then (''Sound Mode 4 register, envelope (R/W)'', True)
      else if a = 0xFF23 then
        (''Sound Mode 4 register, counter/consecutive; inital (R/W)'', True)
      else if a = 0xFF24 then (''Channel control / ON-OFF / Volume (R/W)'', True)
      else if a = 0xFF25 then (''Selection of Sound output terminal (R/W)'', True)
      else if a = 0xFF26 then (''Sound on/off (R/W)'', True)
      else if 0xFF30 \<le> a \<and> a \<le> 0xFF3F then (''Sound Sample RAM'', True)
      else if a = 0xFF47 then (''BGP'', False)
      else if 0xFF4D \<le> a \<and> a \<le> 0xFF7F then (''GBC'', True)
      else if a = 0xFFFF then (''IE'', False)
      else (''unknown'', False))"

text \<open>
  \<^verbatim>\<open>func (m *Mmu) selectAddressBlock(addr Worder, rw string) (addressBlock, Word)\<close>:
  the block of an address and the block's first address. An address in no block panics
  unless \<^verbatim>\<open>getAddressInfo\<close> knows it, in which case the block is \<^verbatim>\<open>abNil\<close>.
\<close>

definition selectAddressBlock :: "Word \<Rightarrow> string \<Rightarrow> error + (addressBlock \<times> Word)" where
  "selectAddressBlock a rw =
     (if a < AddrVRam then Inr (abRom, 0)
      else if AddrVRam \<le> a \<and> a < AddrERam then Inr (abVRam, AddrVRam)
      else if AddrERam \<le> a \<and> a < AddrRam then Inr (abERam, AddrERam)
      else if AddrRam \<le> a \<and> a < AddrOam then Inr (abRam, AddrRam)
      else if AddrOam \<le> a \<and> a < AddrOamEnd then Inr (abOam, AddrOam)
      else if AddrP1 = a then Inr (abP1, AddrP1)
      else if AddrIF = a then Inr (abIF, AddrIF)
      else if AddrGpuRegs \<le> a \<and> a < AddrGpuRegsEnd then Inr (abGpuRegs, AddrGpuRegs)
      else if AddrZero \<le> a \<and> a < AddrIE then Inr (abZero, AddrZero)
      else if AddrIE = a then Inr (abIE, AddrIE)
      else (case getAddressInfo a of
              (u, v) \<Rightarrow>
                if \<not> v then Inl (UnhandledMemory (if rw = [] then ''access'' else rw) a u)
                else Inr (abNil, 0)))"

text \<open>
  \<^verbatim>\<open>func (m *Mmu) LockAddr(addr Worder, ak AddressKeys) AddressKeys\<close>, with the Mmu
  whose mutex it locks. \<^verbatim>\<open>m.locks[blk].Lock()\<close> on a nil pointer is a fault, and on a
  locked mutex it waits.
\<close>

definition LockAddr :: "Mmu \<Rightarrow> Word \<Rightarrow> AddressKeys \<Rightarrow> error + (AddressKeys \<times> Mmu)" where
  "LockAddr m addr ak =
     bindE (selectAddressBlock addr ''lock'')
       (\<lambda>(blk, start).
          if ak AND blk = blk then Inr (ak, m)
          else (case locks m blk of
                  None \<Rightarrow> Inl NilPointer
                | Some True \<Rightarrow> Inl (Blocked blk)
                | Some False \<Rightarrow> Inr (ak OR blk, m\<lparr>locks := (locks m)(blk \<mapsto> True)\<rparr>)))"

text \<open>
  \<^verbatim>\<open>func (m *Mmu) UnlockAddr(addr Worder, ak AddressKeys) AddressKeys\<close>.
  \<^verbatim>\<open>Unlock\<close> of a mutex that is not locked is a fatal run-time error of Go.
\<close>

definition UnlockAddr :: "Mmu \<Rightarrow> Word \<Rightarrow> AddressKeys \<Rightarrow> error + (AddressKeys \<times> Mmu)" where
  "UnlockAddr m addr ak =
     bindE (selectAddressBlock addr ''unlock'')
       (\<lambda>(blk, start).
          if ak AND blk \<noteq> blk then Inr (ak, m)
          else (case locks m blk of
                  None \<Rightarrow> Inl NilPointer
                | Some False \<Rightarrow> Inl (UnlockOfUnlockedMutex blk)
                | Some True \<Rightarrow>
                    Inr (ak AND (blk XOR 0xFFFF), m\<lparr>locks := (locks m)(blk \<mapsto> False)\<rparr>)))"

text \<open>
  \<^verbatim>\<open>func (m *Mmu) ReadByteAt(addr Worder, ak AddressKeys) Byte\<close>. A block whose branch
  does not return falls through to the two panics at the end, \<open>read_fallthrough\<close>.
\<close>

definition read_fallthrough :: "Word \<Rightarrow> bool \<Rightarrow> error + Byte" where
  "read_fallthrough addr owner =
     (if \<not> owner then Inl (UnauthorizedRead addr)
      else (case getAddressInfo addr of
              (u, v) \<Rightarrow> if \<not> v then Inl (UnhandledMemory ''read'' addr u) else Inr 0))"

definition ReadByteAt :: "Mmu \<Rightarrow> Word \<Rightarrow> AddressKeys \<Rightarrow> error + Byte" where
  "ReadByteAt m addr ak =
     bindE (selectAddressBlock addr ''read'')
       (\<lambda>(blk, start).
          let owner = (ak AND blk = blk) in
          if blk = abRom \<and> owner then index (rom m) (addr - start)
          else if blk = abVRam then
            (if owner then index (vram m) (addr - start) else read_fallthrough addr owner)
          else if blk = abRam then
            (if owner then index (ram m) ((addr - start) AND 0x1FFF)
             else read_fallthrough addr owner)
          else if blk = abOam then
            (if owner then index (oam m) (addr - start) else read_fallthrough addr owner)
          else if blk = abP1 then Inr (mmio_readByte (ioP1 m) owner)
          else if blk = abIF then Inr (mmio_readByte (ioIF m) owner)
          else if blk = abGpuRegs then
            (if owner then index (gpuregs m) (addr - start) else read_fallthrough addr owner)
          else if blk = abZero then
            (if owner then index (zero m) (addr - start) else read_fallthrough addr owner)
          else if blk = abIE then
            (if owner then Inr (ie m) else read_fallthrough addr owner)
          else read_fallthrough addr owner)"

text \<open>
  \<^verbatim>\<open>func (m *Mmu) WriteByteAt(addr Worder, b Byter, ak AddressKeys)\<close>. The ROM branch
  returns at once; the two ports never reach the authorization panic. A write to P1 by
  a non-owner also sends the key-check command to the keypad.
\<close>

definition write_fallthrough :: "Mmu \<Rightarrow> Word \<Rightarrow> Byte \<Rightarrow> bool \<Rightarrow> error + Mmu" where
  "write_fallthrough m addr v owner =
     (if \<not> owner then Inl (UnauthorizedWrite addr v)
      else (case getAddressInfo addr of
              (u, w) \<Rightarrow> if \<not> w then Inl (UnhandledMemory ''write'' addr u) else Inr m))"

definition WriteByteAt :: "Mmu \<Rightarrow> Word \<Rightarrow> Byte \<Rightarrow> AddressKeys \<Rightarrow> error + Mmu" where
  "WriteByteAt m addr v ak =
     bindE (selectAddressBlock addr ''write'')
       (\<lambda>(blk, start).
          let owner = (ak AND blk = blk) in
          if blk = abRom then Inr m
          else if blk = abVRam then
            (if owner then bindE (store (vram m) (addr - start) v) (\<lambda>xs. Inr (m\<lparr>vram := xs\<rparr>))
             else write_fallthrough m addr v owner)
          else if blk = abRam then
            (if owner then
               bindE (store (ram m) ((addr - start) AND 0x1FFF) v) (\<lambda>xs. Inr (m\<lparr>ram := xs\<rparr>))
             else write_fallthrough m addr v owner)
          else if blk = abOam then
            (if owner then bindE (store (oam m) (addr - start) v) (\<lambda>xs. Inr (m\<lparr>oam := xs\<rparr>))
             else write_fallthrough m addr v owner)
          else if blk = abP1 then
            (if \<not> owner \<and> \<not> kp m then Inl NilPointer
             else Inr (m\<lparr>ioP1 := mmio_writeByte (ioP1 m) v owner\<rparr>))
          else if blk = abIF then Inr (m\<lparr>ioIF := mmio_writeByte (ioIF m) v owner\<rparr>)
          else if blk = abGpuRegs then
            (if owner then
               bindE (store (gpuregs m) (addr - start) v) (\<lambda>xs. Inr (m\<lparr>gpuregs := xs\<rparr>))
             else write_fallthrough m addr v owner)
          else if blk = abZero then
            (if owner then bindE (store (zero m) (addr - start) v) (\<lambda>xs. Inr (m\<lparr>zero := xs\<rparr>))
             else write_fallthrough m addr v owner)
          else if blk = abIE then
            (if owner then Inr (m\<lparr>ie := v\<rparr>) else write_fallthrough m addr v owner)
          else write_fallthrough m addr v owner)"

text \<open>
  \<^verbatim>\<open>func (m *Mmu) ReadIoByte(addr Worder, ak AddressKeys) (Byte, bool)\<close>: the owner
  settles the queued write of a port.
\<close>

definition ReadIoByte :: "Mmu \<Rightarrow> Word \<Rightarrow> AddressKeys \<Rightarrow> error + ((Byte \<times> bool) \<times> Mmu)" where
  "ReadIoByte m addr ak =
     bindE (selectAddressBlock addr ''write'')
       (\<lambda>(blk, start).
          let owner = (ak AND blk = blk) in
          if blk = abP1 then
            bindE (mmio_readIoByte (ioP1 m) owner) (\<lambda>(r, io). Inr (r, m\<lparr>ioP1 := io\<rparr>))
          else if blk = abIF then
            bindE (mmio_readIoByte (ioIF m) owner) (\<lambda>(r, io). Inr (r, m\<lparr>ioIF := io\<rparr>))
          else Inl (UnhandledQueuedWrite addr))"

section \<open>The Cpu of package jibi (src/jibi/cpu.go)\<close>

text \<open>
  \<^verbatim>\<open>type Cpu struct\<close>: the base fields, the interrupt master enable \<^verbatim>\<open>ime\<close> (a
  \<^verbatim>\<open>Bit\<close>, compared with 0 and 1), the Mmu and the Cpu's key set, and the boot ROM with
  its flag. \<^verbatim>\<open>mmu\<close> is a pointer to an Mmu that other workers share; here the Cpu
  carries the Mmu, and the nil pointer that \<^verbatim>\<open>NewCpu\<close> tolerates is left out (a Cpu
  without Mmu cannot step). The clock and trace channels (\<^verbatim>\<open>tClocks\<close>,
  \<^verbatim>\<open>notifyInst\<close>), the commander and the timing fields only send values to other
  workers and are not part of the state.
\<close>

record Cpu = cpu_regs +
  ime :: Byte
  mmu :: Mmu
  mmuKeys :: AddressKeys
  bios :: "Byte list"
  biosFinished :: bool

definition lockAddr :: "Cpu \<Rightarrow> Word \<Rightarrow> error + Cpu" where
  "lockAddr c addr =
     bindE (LockAddr (mmu c) addr (mmuKeys c)) (\<lambda>(ak, m). Inr (c\<lparr>mmu := m, mmuKeys := ak\<rparr>))"

definition unlockAddr :: "Cpu \<Rightarrow> Word \<Rightarrow> error + Cpu" where
  "unlockAddr c addr =
     bindE (UnlockAddr (mmu c) addr (mmuKeys c)) (\<lambda>(ak, m). Inr (c\<lparr>mmu := m, mmuKeys := ak\<rparr>))"

text \<open>
  \<^verbatim>\<open>func (c *Cpu) readByte(addr Worder) Byte\<close>. While the boot ROM is mapped, an
  address up to 0xFF reads \<^verbatim>\<open>c.bios[a]\<close> and never reaches the Mmu. The deferred
  unlock runs after the read.
\<close>

definition locked_read :: "Cpu \<Rightarrow> Word \<Rightarrow> Word \<Rightarrow> error + (Byte \<times> Cpu)" where
  "locked_read c region a =
     bindE (lockAddr c region)
       (\<lambda>c1. bindE (ReadByteAt (mmu c1) a (mmuKeys c1))
          (\<lambda>v. bindE (unlockAddr c1 region) (\<lambda>c2. Inr (v, c2))))"

definition readByte :: "Cpu \<Rightarrow> Word \<Rightarrow> error + (Byte \<times> Cpu)" where
  "readByte c a =
     (if \<not> biosFinished c \<and> a \<le> 0xFF then bindE (index (bios c) a) (\<lambda>v. Inr (v, c))
      else if AddrVRam \<le> a \<and> a \<le> AddrRam then locked_read c AddrVRam a
      else if AddrOam \<le> a \<and> a \<le> AddrOamEnd then locked_read c AddrOam a
      else bindE (ReadByteAt (mmu c) a (mmuKeys c)) (\<lambda>v. Inr (v, c)))"

text \<open>\<^verbatim>\<open>func (c *Cpu) writeByte(addr Worder, b Byter)\<close>.\<close>

definition locked_write :: "Cpu \<Rightarrow> Word \<Rightarrow> Word \<Rightarrow> Byte \<Rightarrow> error + Cpu" where
  "locked_write c region a v =
     bindE (lockAddr c region)
       (\<lambda>c1. bindE (WriteByteAt (mmu c1) a v (mmuKeys c1))
          (\<lambda>m. unlockAddr (c1\<lparr>mmu := m\<rparr>) region))"

definition writeByte :: "Cpu \<Rightarrow> Word \<Rightarrow> Byte \<Rightarrow> error + Cpu" where
  "writeByte c a v =
     (if AddrVRam \<le> a \<and> a \<le> AddrRam then locked_write c AddrVRam a v
      else if AddrOam \<le> a \<and> a \<le> AddrOamEnd then locked_write c AddrOam a v
      else bindE (WriteByteAt (mmu c) a v (mmuKeys c)) (\<lambda>m. Inr (c\<lparr>mmu := m\<rparr>)))"

text \<open>
  \<^verbatim>\<open>readWord\<close> and \<^verbatim>\<open>writeWord\<close>: the low byte at \<^verbatim>\<open>addr\<close>, the high byte at
  \<^verbatim>\<open>addr + 1\<close>. Modelled from the spec: \<^verbatim>\<open>BytesToWord\<close> and the methods \<^verbatim>\<open>Low\<close> and
  \<^verbatim>\<open>High\<close> of a word are not in src; a word is the big-endian composition of its high
  and low byte.
\<close>

definition BytesToWord :: "Byte \<Rightarrow> Byte \<Rightarrow> Word" where
  "BytesToWord h l = push_bit 8 (ucast h) OR ucast l"

definition Low :: "Word \<Rightarrow> Byte" where
  "Low w = ucast w"

definition High :: "Word \<Rightarrow> Byte" where
  "High w = ucast (drop_bit 8 w)"

definition readWord :: "Cpu \<Rightarrow> Word \<Rightarrow> error + (Word \<times> Cpu)" where
  "readWord c addr =
     bindE (readByte c addr)
       (\<lambda>(l, c1). bindE (readByte c1 (addr + 1)) (\<lambda>(h, c2). Inr (BytesToWord h l, c2)))"

definition writeWord :: "Cpu \<Rightarrow> Word \<Rightarrow> Word \<Rightarrow> error + Cpu" where
  "writeWord c addr w =
     bindE (writeByte c addr (Low w)) (\<lambda>c1. writeByte c1 (addr + 1) (High w))"

text \<open>
  Modelled from the spec: \<^verbatim>\<open>push\<close> is not in src (part_000 has its predecessor
  \<^verbatim>\<open>pushWord\<close>: \<^verbatim>\<open>writeWord(sp-2, w); sp -= 2\<close>). The spec's scenario 3: PUSH BC with
  SP = 0xFFFE stores C at 0xFFFC and B at 0xFFFD and leaves SP = 0xFFFC.
\<close>

definition push :: "Cpu \<Rightarrow> Word \<Rightarrow> error + Cpu" where
  "push c w = bindE (writeWord c (sp c - 2) w) (\<lambda>c1. Inr (c1\<lparr>sp := sp c1 - 2\<rparr>))"

text \<open>
  \<^verbatim>\<open>func (c *Cpu) fetch()\<close>. The opcode table is the parameter \<open>tbl\<close>; an opcode with no
  entry yields the zero command (\<^verbatim>\<open>b\<close> = 0). The instruction buffer is written once,
  after the operand loop.
\<close>

fun fetch_operands :: "nat \<Rightarrow> Cpu \<Rightarrow> Byte list \<Rightarrow> error + (Byte list \<times> Cpu)" where
  "fetch_operands 0 c ps = Inr (ps, c)"
| "fetch_operands (Suc n) c ps =
     bindE (readByte c (pc c))
       (\<lambda>(v, c1). fetch_operands n (c1\<lparr>pc := pc c1 + 1\<rparr>) (ps @ [v]))"

definition fetch :: "(opcode \<rightharpoonup> Cpu command) \<Rightarrow> Cpu \<Rightarrow> error + Cpu" where
  "fetch tbl c =
     bindE (readByte c (pc c))
       (\<lambda>(v, c1).
          let op = (ucast v :: opcode);
              c2 = c1\<lparr>pc := pc c1 + 1\<rparr>
          in bindE (if op = 0xCB then
                      bindE (readByte c2 (pc c2))
                        (\<lambda>(v2, c3). Inr (0xCB00 + ucast v2, c3\<lparr>pc := pc c3 + 1\<rparr>))
                    else Inr (op, c2))
               (\<lambda>(op2, c4).
                  bindE (fetch_operands
                           (unat (case tbl op2 of None \<Rightarrow> 0 | Some cmd \<Rightarrow> cmd_b cmd)) c4 [])
                    (\<lambda>(ps, c5). Inr (c5\<lparr>inst := newInstruction op2 ps\<rparr>))))"

text \<open>
  \<^verbatim>\<open>func (c *Cpu) execute()\<close>: \<^verbatim>\<open>if cmd, ok := commandTable[c.inst.o]; ok { ... }\<close>
  with no \<^verbatim>\<open>else\<close> branch.
\<close>

definition execute :: "(opcode \<rightharpoonup> Cpu command) \<Rightarrow> Cpu \<Rightarrow> error + Cpu" where
  "execute tbl c =
     (case tbl (inst_o (inst c)) of
        Some cmd \<Rightarrow>
          bindE (cmd_f cmd c)
            (\<lambda>c1. Inr (c1\<lparr>m_cycles := m_cycles c1 + cmd_t cmd * 4,
                           t_cycles := t_cycles c1 + cmd_t cmd\<rparr>))
      | None \<Rightarrow> Inr c)"

text \<open>
  Modelled from the spec: the type \<^verbatim>\<open>Interrupt\<close>, its five constants and its method
  \<^verbatim>\<open>Address\<close> are not in src. The spec: VBlank 0x01 with vector 0x40, LCD-STAT 0x02
  with 0x48, Timer 0x04 with 0x50, Serial 0x08 with 0x58, Keypad 0x10 with 0x60. The
  code converts an interrupt to a byte and compares it with 0, so it is a byte here;
  \<open>Address\<close> of any other byte is not specified and is 0 here.
\<close>

type_synonym Interrupt = Byte

definition InterruptVblank :: Interrupt where "InterruptVblank = 0x01"
definition InterruptLCDC :: Interrupt where "InterruptLCDC = 0x02"
definition InterruptTimer :: Interrupt where "InterruptTimer = 0x04"
definition InterruptSerial :: Interrupt where "InterruptSerial = 0x08"
definition InterruptKeypad :: Interrupt where "InterruptKeypad = 0x10"

definition Address :: "Interrupt \<Rightarrow> Word" where
  "Address i =
     (if i = InterruptVblank then 0x40
      else if i = InterruptLCDC then 0x48
      else if i = InterruptTimer then 0x50
      else if i = InterruptSerial then 0x58
      else if i = InterruptKeypad then 0x60
      else 0)"

text \<open>\<^verbatim>\<open>func (cpu *Cpu) resetInterrupt(i Interrupt, iflag Byte)\<close>.\<close>

definition resetInterrupt :: "Cpu \<Rightarrow> Interrupt \<Rightarrow> Byte \<Rightarrow> error + Cpu" where
  "resetInterrupt c i iflag = writeByte c AddrIF (iflag AND (i XOR 0xFF))"

text \<open>\<^verbatim>\<open>func (cpu *Cpu) getInterrupt(ie, iflag Byte) Interrupt\<close>.\<close>

definition getInterrupt :: "Byte \<Rightarrow> Byte \<Rightarrow> Interrupt" where
  "getInterrupt e iflag =
     (if InterruptVblank AND e AND iflag \<noteq> 0 then InterruptVblank
      else if InterruptLCDC AND e AND iflag \<noteq> 0 then InterruptLCDC
      else if InterruptTimer AND e AND iflag \<noteq> 0 then InterruptTimer
      else if InterruptSerial AND e AND iflag \<noteq> 0 then InterruptSerial
      else if InterruptKeypad AND e AND iflag \<noteq> 0 then InterruptKeypad
      else 0)"

text \<open>
  \<^verbatim>\<open>func (cpu *Cpu) io()\<close>: the queued write of IF is settled (the byte of the pair
  that \<^verbatim>\<open>ReadIoByte\<close> returns), masked with IE or with 0, and written back.
\<close>

definition io :: "Cpu \<Rightarrow> error + Cpu" where
  "io c =
     bindE (ReadIoByte (mmu c) AddrIF (mmuKeys c))
       (\<lambda>((iflag, q), m).
          let c1 = c\<lparr>mmu := m\<rparr> in
          if ime c1 = 0 then writeByte c1 AddrIF 0
          else bindE (readByte c1 AddrIE) (\<lambda>(e, c2). writeByte c2 AddrIF (iflag AND e)))"

text \<open>\<^verbatim>\<open>func (cpu *Cpu) interrupt()\<close>.\<close>

definition interrupt :: "Cpu \<Rightarrow> error + Cpu" where
  "interrupt c =
     (if ime c = 1 then
        bindE (readByte c AddrIE)
          (\<lambda>(e, c1).
             bindE (readByte c1 AddrIF)
               (\<lambda>(iflag, c2).
                  let i = getInterrupt e iflag in
                  if i > 0 then
                    bindE (push (c2\<lparr>ime := 0\<rparr>) (pc c2))
                      (\<lambda>c3. resetInterrupt (jp c3 (Address i)) i iflag)
                  else Inr c2))
      else Inr c)"

text \<open>
  \<^verbatim>\<open>func (c *Cpu) step(...)\<close>: the counters are reset, the boot ROM is unmapped when it
  is still mapped and \<^verbatim>\<open>pc\<close> is 0x0100, then io, interrupt, fetch, and execute between
  the lock and the unlock of the GPU registers. The sends on the trace and clock channels
  change no field of the Cpu, and the values returned to the commander loop are constants.
\<close>

definition step :: "(opcode \<rightharpoonup> Cpu command) \<Rightarrow> Cpu \<Rightarrow> error + Cpu" where
  "step tbl c =
     (let c0 = c\<lparr>m_cycles := 0, t_cycles := 0\<rparr>;
          c1 = (if \<not> biosFinished c0 \<and> pc c0 = 0x0100 then c0\<lparr>biosFinished := True\<rparr> else c0)
      in bindE (io c1)
           (\<lambda>c2. bindE (interrupt c2)
              (\<lambda>c3. bindE (fetch tbl c3)
                 (\<lambda>c4. bindE (lockAddr c4 AddrGpuRegs)
                    (\<lambda>c5. bindE (execute tbl c5)
                       (\<lambda>c6. unlockAddr c6 AddrGpuRegs))))))"

text \<open>A run is a number of steps; it stops at the first fatal error.\<close>

fun run :: "(opcode \<rightharpoonup> Cpu command) \<Rightarrow> nat \<Rightarrow> Cpu \<Rightarrow> error + Cpu" where
  "run tbl 0 c = Inr c"
| "run tbl (Suc n) c = bindE (step tbl c) (run tbl n)"

text \<open>
  \<^verbatim>\<open>func NewCpu(mmu *Mmu, bios []Byte) *Cpu\<close>. A non-empty boot ROM is copied into a
  fresh slice of 0x100 bytes. The Cpu takes the keys of ROM, work RAM, IF, high RAM and
  IE. The struct literal sets the registers, \<^verbatim>\<open>ime\<close>, the Mmu, the keys and the boot
  ROM; it names neither \<^verbatim>\<open>sp\<close> nor \<^verbatim>\<open>pc\<close>, which keep Go's zero value.
\<close>

definition NewCpu :: "Mmu \<Rightarrow> Byte list \<Rightarrow> error + Cpu" where
  "NewCpu m0 bs =
     (let finished = \<not> (length bs > 0);
          bs1 = (if length bs > 0 then take 0x100 (bs @ replicate 0x100 0) else bs)
      in bindE (LockAddr m0 AddrRom 0)
           (\<lambda>(k1, m1). bindE (LockAddr m1 AddrRam k1)
              (\<lambda>(k2, m2). bindE (LockAddr m2 AddrIF k2)
                 (\<lambda>(k3, m3). bindE (LockAddr m3 AddrZero k3)
                    (\<lambda>(k4, m4). bindE (LockAddr m4 AddrIE k4)
                       (\<lambda>(k5, m5).
                          Inr \<lparr>reg_a = 0, reg_b = 0, reg_c = 0, reg_d = 0, reg_e = 0,
                               reg_f = 0, reg_h = 0, reg_l = 0,
                               sp = 0, pc = 0, m_cycles = 0, t_cycles = 0,
                               inst = \<lparr>inst_o = 0, inst_p = []\<rparr>,
                               ime = 1, mmu = m5, mmuKeys = k5,
                               bios = bs1, biosFinished = finished\<rparr>))))))"

section \<open>What a run leaves alone\<close>

text \<open>
  The boot ROM, its flag and the cartridge ROM are the same in two states of the Cpu.
\<close>

definition roms_kept :: "Cpu \<Rightarrow> Cpu \<Rightarrow> bool" where
  "roms_kept c c1 =
     (bios c1 = bios c \<and> biosFinished c1 = biosFinished c \<and> rom (mmu c1) = rom (mmu c))"

text \<open>
  The opcode table is not in src. In src the fields \<^verbatim>\<open>bios\<close> and \<^verbatim>\<open>biosFinished\<close> are
  assigned by \<^verbatim>\<open>NewCpu\<close> and \<^verbatim>\<open>step\<close> only, and \<^verbatim>\<open>rom\<close> by \<^verbatim>\<open>NewMmu\<close> only; a table
  whose executors do not assign them either satisfies this predicate.
\<close>

definition executors_keep_roms :: "(opcode \<rightharpoonup> Cpu command) \<Rightarrow> bool" where
  "executors_keep_roms tbl =
     (\<forall>op cmd c c1. tbl op = Some cmd \<longrightarrow> cmd_f cmd c = Inr c1 \<longrightarrow> roms_kept c c1)"

section \<open>Concrete machines\<close>

text \<open>
  The Cpu that \<^verbatim>\<open>NewCpu\<close> returns on the Mmu that \<^verbatim>\<open>NewMmu\<close> has just built: no
  mutex is locked there, so the five calls of \<^verbatim>\<open>LockAddr\<close> return at once and the Cpu
  holds the keys of ROM, work RAM, IF, high RAM and IE.
\<close>

definition power_on :: "Byte list option \<Rightarrow> Byte list \<Rightarrow> Cpu" where
  "power_on cart bs =
     \<lparr>reg_a = 0, reg_b = 0, reg_c = 0, reg_d = 0, reg_e = 0, reg_f = 0, reg_h = 0, reg_l = 0,
      sp = 0, pc = 0, m_cycles = 0, t_cycles = 0,
      inst = \<lparr>inst_o = 0, inst_p = []\<rparr>,
      ime = 1,
      mmu = (NewMmu cart)\<lparr>locks := (locks (NewMmu cart))
               (abRom \<mapsto> True, abRam \<mapsto> True, abIF \<mapsto> True, abZero \<mapsto> True, abIE \<mapsto> True)\<rparr>,
      mmuKeys = abRom OR abRam OR abIF OR abZero OR abIE,
      bios = (if bs = [] then bs else take 0x100 (bs @ replicate 0x100 0)),
      biosFinished = (bs = [])\<rparr>"

text \<open>
  Modelled from the spec: the opcode table is not in src. Its entry for opcode 0x00 is
  NOP: no operand byte, 4 T-cycles, and an executor that changes nothing (scenario 1 of
  the spec). \<open>nop_table\<close> is the table with this entry alone.
\<close>

definition nop_entry :: "Cpu command" where
  "nop_entry = \<lparr>cmd_b = 0, cmd_t = 4, cmd_f = (\<lambda>c. Inr c)\<rparr>"

definition nop_table :: "opcode \<rightharpoonup> Cpu command" where
  "nop_table = Map.empty(0x00 \<mapsto> nop_entry)"

text \<open>
  Scenario 6 of the spec on the Cpu that \<^verbatim>\<open>NewCpu\<close> builds: IME = 1, IE = 0x05 and
  IF = 0x05 (VBlank and Timer pending), with stack pointer \<open>s\<close> and program counter \<open>p\<close>.
\<close>

definition interrupt_scenario :: "Word \<Rightarrow> Word \<Rightarrow> Cpu" where
  "interrupt_scenario s p =
     (power_on None [])\<lparr>sp := s, pc := p,
        mmu := (mmu (power_on None []))
                 \<lparr>ie := 0x05, ioIF := (ioIF (mmu (power_on None [])))\<lparr>io_value := 0x05\<rparr>\<rparr>\<rparr>"

text \<open>
  A Cpu between two steps of a boot: built by \<^verbatim>\<open>NewCpu\<close> with the one-byte boot ROM
  0xAA (padded with zeros, which are NOPs, to 0x100 bytes) over a cartridge of 0x200
  bytes whose first byte is 0x55 and whose other bytes are 0; a NOP has just been
  executed (16 and 4 in the cycle counters, the mutex of the GPU registers released),
  the program counter is \<open>p\<close> and the boot ROM flag is \<open>fin\<close>.
\<close>

definition boot_scenario :: "Word \<Rightarrow> bool \<Rightarrow> Cpu" where
  "boot_scenario p fin =
     (power_on (Some (0x55 # replicate 0x1FF 0)) [0xAA])
       \<lparr>pc := p, m_cycles := 16, t_cycles := 4,
        mmu := (mmu (power_on (Some (0x55 # replicate 0x1FF 0)) [0xAA]))
                 \<lparr>locks := (locks (mmu (power_on (Some (0x55 # replicate 0x1FF 0)) [0xAA])))
                            (abGpuRegs \<mapsto> False)\<rparr>,
        biosFinished := fin\<rparr>"

section \<open>Properties of the ALU primitives\<close>

lemma byte_bound: "unat (a::Byte) < 256"
  using unsigned_less [of a, where 'a = nat] by simp

lemma low_nibble_mod: "unat ((a::Byte) AND 0x0F) = unat a mod 16"
proof -
  have "a AND 0x0F = take_bit 4 a"
    by (simp add: take_bit_eq_mask mask_eq_exp_minus_1)
  then show ?thesis
    by (simp add: unsigned_take_bit_eq take_bit_eq_mod unat_mod)
qed

lemma unat_widen: "unat (ucast (a::Byte) :: Word) = unat a"
  using byte_bound [of a] by (simp add: unsigned_ucast_eq take_bit_eq_mod)

lemma half_carry_test:
  "(((a::Byte) AND 0x0F) + (b AND 0x0F) > 0x0F) = (unat a mod 16 + unat b mod 16 > 15)"
proof -
  have "unat a mod 16 + unat b mod 16 < 256"
    using mod_less_divisor [of 16 "unat a"] mod_less_divisor [of 16 "unat b"] by linarith
  then have "unat ((a AND 0x0F) + (b AND 0x0F)) = unat a mod 16 + unat b mod 16"
    by (simp add: unat_word_ariths low_nibble_mod)
  then show ?thesis
    by (simp add: word_less_nat_alt)
qed

lemma carry_test:
  "((ucast (a::Byte) :: Word) + ucast (b::Byte) > 0xFF) = (unat a + unat b > 255)"
proof -
  have "unat ((ucast a :: Word) + ucast b) = unat a + unat b"
    using byte_bound [of a] byte_bound [of b] by (simp add: unat_word_ariths unat_widen)
  then show ?thesis
    by (simp add: word_less_nat_alt)
qed

text \<open>
  Claim C4. For all bytes \<open>a\<close> and \<open>b\<close>, \<open>add\<close> returns \<open>(a + b) mod 256\<close> and leaves in
  F exactly: Z set iff the result is 0, N clear, H set iff the sum of the low nibbles
  exceeds 0x0F, C set iff the full sum exceeds 0xFF; the low nibble of F is zero and no
  other register changes.
\<close>

theorem add_result_and_flags:
  "fst (add c a b) = a + b
   \<and> unat (fst (add c a b)) = (unat a + unat b) mod 256
   \<and> snd (add c a b) = c\<lparr>reg_f :=
        (if a + b = 0 then flagZ else 0)
        OR (if unat (a AND 0x0F) + unat (b AND 0x0F) > 0x0F then flagH else 0)
        OR (if unat a + unat b > 0xFF then flagC else 0)\<rparr>
   \<and> getFlag (snd (add c a b)) flagZ = (a + b = 0)
   \<and> getFlag (snd (add c a b)) flagN = False
   \<and> getFlag (snd (add c a b)) flagH = (unat (a AND 0x0F) + unat (b AND 0x0F) > 0x0F)
   \<and> getFlag (snd (add c a b)) flagC = (unat a + unat b > 0xFF)
   \<and> reg_f (snd (add c a b)) AND 0x0F = 0"
  by (simp add: add_def Let_def set_f_def setFlag_def getFlag_def half_carry_test carry_test
      low_nibble_mod flagZ_def flagN_def flagH_def flagC_def unat_word_ariths)

text \<open>
  Claim C3. For all bytes \<open>a\<close> and \<open>b\<close>, \<open>sub\<close> returns \<open>(a - b) mod 256\<close> and leaves in
  F exactly: Z set iff the result is 0, N set, H set iff \<open>(a AND 0x0F) \<ge> (b AND 0x0F)\<close>,
  C set iff \<open>a \<ge> b\<close> (the inverted-borrow convention); the low nibble of F is zero and no
  other register changes.
\<close>

theorem sub_result_and_flags:
  "fst (sub c a b) = a - b
   \<and> uint (fst (sub c a b)) = (uint a - uint b) mod 256
   \<and> snd (sub c a b) = c\<lparr>reg_f :=
        (if a - b = 0 then flagZ else 0)
        OR flagN
        OR (if unat (a AND 0x0F) \<ge> unat (b AND 0x0F) then flagH else 0)
        OR (if unat a \<ge> unat b then flagC else 0)\<rparr>
   \<and> getFlag (snd (sub c a b)) flagZ = (a - b = 0)
   \<and> getFlag (snd (sub c a b)) flagN = True
   \<and> getFlag (snd (sub c a b)) flagH = (unat (a AND 0x0F) \<ge> unat (b AND 0x0F))
   \<and> getFlag (snd (sub c a b)) flagC = (unat a \<ge> unat b)
   \<and> reg_f (snd (sub c a b)) AND 0x0F = 0"
  by (simp add: sub_def Let_def set_f_def setFlag_def getFlag_def word_le_nat_alt
      low_nibble_mod flagZ_def flagN_def flagH_def flagC_def uint_word_ariths)


section \<open>The relative jump\<close>

lemma jr_negative_adds: "sint n < 0 \<Longrightarrow> pc (jr c n) = pc c + scast (- n)"
  by (simp add: jr_def)

text \<open>
  Claim C2. A taken JR with a negative offset should move PC backwards: for ROM[0] = 0x20,
  ROM[1] = 0xFB (JR NZ,-5), Z clear and PC = 0, PC after the step should be 0xFFFD.
  The code does otherwise: for a negative operand \<open>jr\<close> adds \<open>-n\<close> to \<open>pc\<close>, so the step
  of the stand-alone cpu on this program ends with PC = 0x0007 (whatever the base cost
  \<open>tc\<close> of the table entry).
\<close>

theorem jr_nz_negative_offset_moves_forward:
  "map_sum id pc
     (step_main jr_program id (Map.empty(0x20 \<mapsto> jr_nz_entry tc)) (newCpu ())) = Inr 0x0007
   \<and> pc (jrNF ((newCpu ())\<lparr>pc := 0x0002\<rparr>) flagZ 0xFB) = 0x0007"
  by (simp add: step_main_def fetch_main_def execute_main_def newCpu_def jr_program_def
      jr_nz_entry_def newInstruction_def Let_def bindE_def index_def jrNF_def jr_def
      getFlag_def flagZ_def)

section \<open>The opcode table miss\<close>

lemma NewCpu_power_on: "NewCpu (NewMmu cart) bs = Inr (power_on cart bs)"
  by (simp add: NewCpu_def LockAddr_def selectAddressBlock_def bindE_def Let_def NewMmu_def
      power_on_def AddrRom_def AddrVRam_def AddrERam_def AddrRam_def AddrOam_def AddrOamEnd_def
      AddrP1_def AddrIF_def AddrGpuRegs_def AddrGpuRegsEnd_def AddrZero_def AddrIE_def
      abRom_def abRam_def abIF_def abZero_def abIE_def)

text \<open>
  Claim C5, as stated: executing an opcode that the table lacks is a fatal error. It is
  not: \<open>execute\<close> on a Cpu whose instruction buffer holds the opcode 0xD3, which
  \<open>nop_table\<close> lacks, returns the Cpu as it was.
\<close>

theorem execute_unknown_opcode_counterexample:
  "execute nop_table ((power_on None [])\<lparr>inst := newInstruction 0xD3 []\<rparr>)
     = Inr ((power_on None [])\<lparr>inst := newInstruction 0xD3 []\<rparr>)"
  by (simp add: execute_def nop_table_def newInstruction_def)

text \<open>
  Claim C5, amended. Executing an instruction whose opcode has no entry in the opcode
  table is not an error: \<open>execute\<close> runs no executor, credits no cycles and returns the
  Cpu unchanged; the \<open>execute\<close> of the stand-alone cpu does the same after unloading
  the boot ROM when PC is 0x0100.
\<close>

theorem execute_unknown_opcode_skips:
  assumes "tbl (inst_o (inst c)) = None" and "tbl0 (inst_o (inst c0)) = None"
  shows "execute tbl c = Inr c
       \<and> execute_main unloadBios tbl0 c0
           = Inr (if pc c0 = 0x0100 then c0\<lparr>mc := unloadBios (mc c0)\<rparr> else c0)"
  using assms by (simp add: execute_def execute_main_def Let_def)

theorem execute_unknown_opcode_skips_witness:
  "nop_table (inst_o (inst ((power_on None [])\<lparr>inst := newInstruction 0xD3 []\<rparr>))) = None
   \<and> execute nop_table ((power_on None [])\<lparr>inst := newInstruction 0xD3 []\<rparr>)
       = Inr ((power_on None [])\<lparr>inst := newInstruction 0xD3 []\<rparr>)
   \<and> execute_main id Map.empty ((newCpu ())\<lparr>pc := 0x0100\<rparr>)
       = Inr ((newCpu ())\<lparr>pc := 0x0100\<rparr>)"
  using execute_unknown_opcode_skips
    [of nop_table "(power_on None [])\<lparr>inst := newInstruction 0xD3 []\<rparr>"
        Map.empty "(newCpu ())\<lparr>pc := 0x0100\<rparr>" id]
  by (simp add: nop_table_def newInstruction_def)

section \<open>The Mmu: blocks, keys and authorization\<close>

lemma select_rw:
  "selectAddressBlock a rw = Inr x \<Longrightarrow> selectAddressBlock a rw' = Inr x"
  by (auto simp: selectAddressBlock_def split: if_splits prod.splits)

lemma select_blocks:
  "selectAddressBlock a rw = Inr (blk, start) \<Longrightarrow>
     blk \<in> {abNil, abRom, abVRam, abERam, abRam, abOam, abP1, abIF, abGpuRegs, abZero, abIE}"
  by (auto simp: selectAddressBlock_def split: if_splits prod.splits)

text \<open>
  Claim C8. For every address below 0x8000, every byte and every key set, \<open>WriteByteAt\<close>
  returns without error and returns the Mmu it was given: no field of it changes.
\<close>

theorem rom_write_ignored: "addr < 0x8000 \<Longrightarrow> WriteByteAt m addr v ak = Inr m"
  by (simp add: WriteByteAt_def selectAddressBlock_def bindE_def AddrVRam_def)

theorem rom_write_ignored_witness:
  "(0x0150 :: Word) < 0x8000
   \<and> WriteByteAt (NewMmu (Some [1, 2, 3])) 0x0150 0xAB 0 = Inr (NewMmu (Some [1, 2, 3]))
   \<and> WriteByteAt (NewMmu (Some [1, 2, 3])) 0x0150 0xAB abRom = Inr (NewMmu (Some [1, 2, 3]))"
  using rom_write_ignored [of "0x0150" "NewMmu (Some [1, 2, 3])" "0xAB" 0]
    rom_write_ignored [of "0x0150" "NewMmu (Some [1, 2, 3])" "0xAB" abRom]
  by simp

lemmas addr_defs = AddrRom_def AddrVRam_def AddrERam_def AddrRam_def AddrOam_def AddrOamEnd_def
  AddrP1_def AddrIF_def AddrGpuRegs_def AddrGpuRegsEnd_def AddrZero_def AddrIE_def

lemmas ab_defs = abNil_def abRom_def abVRam_def abERam_def abRam_def abOam_def abP1_def abIF_def
  abGpuRegs_def abZero_def abIE_def

lemma bit_present_iff: "n < 16 \<Longrightarrow> ((ak :: 16 word) AND 2 ^ n = 2 ^ n) = bit ak n"
proof
  assume "n < 16" and "ak AND 2 ^ n = 2 ^ n"
  then have "bit (ak AND 2 ^ n) n" by (simp add: bit_simps)
  then show "bit ak n" by (simp add: bit_simps)
next
  assume n: "n < 16" and b: "bit ak n"
  show "ak AND 2 ^ n = 2 ^ n"
    by (rule bit_eqI) (use n b in \<open>auto simp: bit_simps\<close>)
qed

lemma key_added_is_held: "((ak :: 16 word) OR blk) AND blk = blk"
  by (rule bit_eqI) (auto simp: bit_simps)

lemma xor_ffff: "(blk :: 16 word) XOR 0xFFFF = NOT blk"
proof -
  have "(0xFFFF :: 16 word) = - 1" by simp
  then show ?thesis by (simp only: bit.xor_one_right)
qed

lemma key_added_then_removed:
  assumes "n < 16" and "(ak :: 16 word) AND 2 ^ n \<noteq> 2 ^ n"
  shows "(ak OR 2 ^ n) AND NOT (2 ^ n) = ak"
proof -
  have b: "\<not> bit ak n" using assms by (simp add: bit_present_iff)
  show ?thesis
    by (rule bit_eqI) (use assms(1) b in \<open>auto simp: bit_simps\<close>)
qed

lemma block_single_bit:
  assumes "selectAddressBlock addr rw = Inr (blk, start)" and "blk \<noteq> abNil"
  shows "\<exists>n. n < 16 \<and> blk = 2 ^ n"
proof -
  have "blk \<in> {abRom, abVRam, abERam, abRam, abOam, abP1, abIF, abGpuRegs, abZero, abIE}"
    using select_blocks [OF assms(1)] assms(2) by simp
  then consider "blk = 2 ^ 1" | "blk = 2 ^ 2" | "blk = 2 ^ 3" | "blk = 2 ^ 4" | "blk = 2 ^ 5"
    | "blk = 2 ^ 6" | "blk = 2 ^ 7" | "blk = 2 ^ 8" | "blk = 2 ^ 9" | "blk = 2 ^ 10"
    by (auto simp: ab_defs)
  then show ?thesis
    by cases (rule exI [of _ 1], simp, rule exI [of _ 2], simp, rule exI [of _ 3], simp,
      rule exI [of _ 4], simp, rule exI [of _ 5], simp, rule exI [of _ 6], simp,
      rule exI [of _ 7], simp, rule exI [of _ 8], simp, rule exI [of _ 9], simp,
      rule exI [of _ 10], simp)
qed

text \<open>
  An address in no block and unknown to \<open>getAddressInfo\<close>, such as 0xFF15, has no block
  bit: \<open>selectAddressBlock\<close> panics, so neither \<open>LockAddr\<close> nor \<open>UnlockAddr\<close> returns
  (the "unhandled access" of spec 4.E, with direction lock or unlock).
\<close>

lemma lock_unmapped_address_fatal:
  "LockAddr (NewMmu None) 0xFF15 0 = Inl (UnhandledMemory ''lock'' 0xFF15 ''unknown'')
   \<and> UnlockAddr (NewMmu None) 0xFF15 0 = Inl (UnhandledMemory ''unlock'' 0xFF15 ''unknown'')"
  by (simp add: LockAddr_def UnlockAddr_def selectAddressBlock_def bindE_def addr_defs
      getAddressInfo_def)

text \<open>
  Claim C9. For every address that has a block bit, that is, lies in one of the ten
  blocks (with block bit \<open>blk\<close>, a single bit), and every key set \<open>ak\<close>: if \<open>blk\<close> is in
  \<open>ak\<close>, \<open>LockAddr\<close> returns \<open>ak\<close> and changes nothing; otherwise, the block's mutex being
  free, it locks it and returns \<open>ak OR blk\<close>. If \<open>blk\<close> is not in \<open>ak\<close>, \<open>UnlockAddr\<close>
  returns \<open>ak\<close> and changes nothing; otherwise, the mutex being locked, it releases it
  and returns \<open>ak\<close> with exactly that bit cleared. Hence unlocking after locking, from a
  key set without the bit, gives back the key set and the Mmu.
\<close>

theorem lock_unlock_keys:
  assumes sel: "selectAddressBlock addr rw = Inr (blk, start)" and nn: "blk \<noteq> abNil"
  shows "(ak AND blk = blk \<longrightarrow> LockAddr m addr ak = Inr (ak, m))
       \<and> (ak AND blk \<noteq> blk \<longrightarrow> locks m blk = Some False \<longrightarrow>
            LockAddr m addr ak = Inr (ak OR blk, m\<lparr>locks := (locks m)(blk \<mapsto> True)\<rparr>))
       \<and> (ak AND blk \<noteq> blk \<longrightarrow> UnlockAddr m addr ak = Inr (ak, m))
       \<and> (ak AND blk = blk \<longrightarrow> locks m blk = Some True \<longrightarrow>
            UnlockAddr m addr ak = Inr (ak AND NOT blk, m\<lparr>locks := (locks m)(blk \<mapsto> False)\<rparr>))
       \<and> (ak AND blk \<noteq> blk \<longrightarrow> locks m blk = Some False \<longrightarrow>
            bindE (LockAddr m addr ak) (\<lambda>(k, m1). UnlockAddr m1 addr k) = Inr (ak, m))
       \<and> (\<exists>n. n < 16 \<and> blk = 2 ^ n)"
proof -
  have l: "selectAddressBlock addr ''lock'' = Inr (blk, start)"
    and u: "selectAddressBlock addr ''unlock'' = Inr (blk, start)"
    using sel by (rule select_rw)+
  obtain n where n: "n < 16" "blk = 2 ^ n"
    using block_single_bit [OF sel nn] by blast
  have c1: "ak AND blk = blk \<longrightarrow> LockAddr m addr ak = Inr (ak, m)"
    by (simp add: LockAddr_def l bindE_def)
  have c2: "ak AND blk \<noteq> blk \<longrightarrow> locks m blk = Some False \<longrightarrow>
            LockAddr m addr ak = Inr (ak OR blk, m\<lparr>locks := (locks m)(blk \<mapsto> True)\<rparr>)"
    by (simp add: LockAddr_def l bindE_def)
  have c3: "ak AND blk \<noteq> blk \<longrightarrow> UnlockAddr m addr ak = Inr (ak, m)"
    by (simp add: UnlockAddr_def u bindE_def)
  have c4: "ak AND blk = blk \<longrightarrow> locks m blk = Some True \<longrightarrow>
            UnlockAddr m addr ak = Inr (ak AND NOT blk, m\<lparr>locks := (locks m)(blk \<mapsto> False)\<rparr>)"
    by (simp add: UnlockAddr_def u bindE_def xor_ffff)
  have c5: "ak AND blk \<noteq> blk \<longrightarrow> locks m blk = Some False \<longrightarrow>
            bindE (LockAddr m addr ak) (\<lambda>(k, m1). UnlockAddr m1 addr k) = Inr (ak, m)"
  proof (intro impI)
    assume a: "ak AND blk \<noteq> blk" and f: "locks m blk = Some False"
    have restored: "(ak OR blk) AND NOT blk = ak"
      using key_added_then_removed [of n ak] n a by simp
    have same: "(locks m)(blk \<mapsto> False) = locks m"
      using f by (simp add: map_upd_triv)
    show "bindE (LockAddr m addr ak) (\<lambda>(k, m1). UnlockAddr m1 addr k) = Inr (ak, m)"
      using a f by (simp add: LockAddr_def UnlockAddr_def l u bindE_def key_added_is_held
          xor_ffff restored same)
  qed
  from c1 c2 c3 c4 c5 n show ?thesis by blast
qed

theorem lock_unlock_keys_witness:
  "selectAddressBlock AddrVRam ''lock'' = Inr (abVRam, AddrVRam)
   \<and> LockAddr (NewMmu None) AddrVRam 0
       = Inr (abVRam, (NewMmu None)\<lparr>locks := (locks (NewMmu None))(abVRam \<mapsto> True)\<rparr>)
   \<and> UnlockAddr (NewMmu None) AddrVRam 0 = Inr (0, NewMmu None)
   \<and> bindE (LockAddr (NewMmu None) AddrVRam 0) (\<lambda>(k, m1). UnlockAddr m1 AddrVRam k)
       = Inr (0, NewMmu None)
   \<and> LockAddr (mmu (power_on None [])) AddrRom (mmuKeys (power_on None []))
       = Inr (mmuKeys (power_on None []), mmu (power_on None []))
   \<and> UnlockAddr (mmu (power_on None [])) AddrIE (mmuKeys (power_on None []))
       = Inr (abRom OR abRam OR abIF OR abZero,
              (mmu (power_on None []))
                \<lparr>locks := (locks (mmu (power_on None [])))(abIE \<mapsto> False)\<rparr>)"
proof -
  have v: "selectAddressBlock AddrVRam ''lock'' = Inr (abVRam, AddrVRam)"
    and r: "selectAddressBlock AddrRom ''lock'' = Inr (abRom, 0)"
    and e: "selectAddressBlock AddrIE ''lock'' = Inr (abIE, AddrIE)"
    by (simp_all add: selectAddressBlock_def addr_defs)
  have nv: "abVRam \<noteq> abNil" and nr: "abRom \<noteq> abNil" and ne: "abIE \<noteq> abNil"
    by (simp_all add: ab_defs)
  have free: "locks (NewMmu None) abVRam = Some False"
    by (simp add: NewMmu_def ab_defs)
  have held: "locks (mmu (power_on None [])) abIE = Some True"
    by (simp add: power_on_def)
  have keys: "mmuKeys (power_on None []) AND NOT abIE = abRom OR abRam OR abIF OR abZero"
    by (simp add: power_on_def ab_defs)
  have nk: "0 AND abVRam \<noteq> abVRam" and hr: "mmuKeys (power_on None []) AND abRom = abRom"
    and he: "mmuKeys (power_on None []) AND abIE = abIE"
    by (simp_all add: power_on_def ab_defs)
  note a = lock_unlock_keys [OF v nv, of 0 "NewMmu None"]
  note b = lock_unlock_keys [OF r nr, of "mmuKeys (power_on None [])" "mmu (power_on None [])"]
  note c = lock_unlock_keys [OF e ne, of "mmuKeys (power_on None [])" "mmu (power_on None [])"]
  have 1: "LockAddr (NewMmu None) AddrVRam 0
       = Inr (abVRam, (NewMmu None)\<lparr>locks := (locks (NewMmu None))(abVRam \<mapsto> True)\<rparr>)"
    using a nk free by simp
  have 2: "UnlockAddr (NewMmu None) AddrVRam 0 = Inr (0, NewMmu None)"
    using a nk by blast
  have 3: "bindE (LockAddr (NewMmu None) AddrVRam 0) (\<lambda>(k, m1). UnlockAddr m1 AddrVRam k)
       = Inr (0, NewMmu None)"
    using a nk free by blast
  have 4: "LockAddr (mmu (power_on None [])) AddrRom (mmuKeys (power_on None []))
       = Inr (mmuKeys (power_on None []), mmu (power_on None []))"
    using b hr by blast
  have 5: "UnlockAddr (mmu (power_on None [])) AddrIE (mmuKeys (power_on None []))
       = Inr (abRom OR abRam OR abIF OR abZero,
              (mmu (power_on None []))
                \<lparr>locks := (locks (mmu (power_on None [])))(abIE \<mapsto> False)\<rparr>)"
    using c he held keys by simp
  from v 1 2 3 4 5 show ?thesis by blast
qed

lemma ReadByteAt_not_owner:
  assumes r: "selectAddressBlock addr ''read'' = Inr (blk, start)" and no: "ak AND blk \<noteq> blk"
  shows "ReadByteAt m addr ak =
           (if blk = abP1 then Inr (io_read (ioP1 m))
            else if blk = abIF then Inr (io_read (ioIF m))
            else Inl (UnauthorizedRead addr))"
proof -
  have o: "(ak AND blk = blk) = False" using no by simp
  show ?thesis
    apply (simp only: ReadByteAt_def r bindE_def sum.case prod.case Let_def o)
    apply (simp add: read_fallthrough_def mmio_readByte_def ab_defs)
    done
qed

lemma WriteByteAt_not_owner:
  assumes w: "selectAddressBlock addr ''write'' = Inr (blk, start)" and no: "ak AND blk \<noteq> blk"
  shows "WriteByteAt m addr v ak =
           (if blk = abRom then Inr m
            else if blk = abP1 then
              (if kp m then Inr (m\<lparr>ioP1 := (ioP1 m)\<lparr>io_queued := True, io_write := v\<rparr>\<rparr>)
               else Inl NilPointer)
            else if blk = abIF then Inr (m\<lparr>ioIF := (ioIF m)\<lparr>io_queued := True, io_write := v\<rparr>\<rparr>)
            else Inl (UnauthorizedWrite addr v))"
proof -
  have o: "(ak AND blk = blk) = False" using no by simp
  show ?thesis
    apply (simp only: WriteByteAt_def w bindE_def sum.case prod.case Let_def o)
    apply (simp add: write_fallthrough_def mmio_writeByte_def ab_defs)
    done
qed

text \<open>
  Claim C7, as stated, holds for every block. It fails for the two ports and for writes
  to ROM: with the empty key set, a read of IF returns the port's \<open>read\<close> field, a write
  to IF is queued, and a write to ROM returns; none is a fatal error.
\<close>

theorem access_authorization_counterexample:
  "ReadByteAt (NewMmu None) 0xFF0F 0 = Inr 0
   \<and> WriteByteAt (NewMmu None) 0xFF0F 0x01 0
       = Inr ((NewMmu None)\<lparr>ioIF := (ioIF (NewMmu None))\<lparr>io_queued := True, io_write := 0x01\<rparr>\<rparr>)
   \<and> WriteByteAt (NewMmu None) 0x0000 0x01 0 = Inr (NewMmu None)"
  by (simp add: ReadByteAt_def WriteByteAt_def selectAddressBlock_def bindE_def addr_defs ab_defs
      Let_def mmio_readByte_def mmio_writeByte_def NewMmu_def newMmio_def)

text \<open>
  Claim C7, amended. For every address in a block and every key set that lacks the
  block's bit: \<open>ReadByteAt\<close> is the fatal error "unauthorized read" in every block but
  P1 and IF, where it returns the port's \<open>read\<close> field; \<open>WriteByteAt\<close> is the fatal error
  "unauthorized write" in every block but ROM, where the write is ignored, and P1 and IF,
  where the byte is queued in the port's \<open>write\<close> field (for P1, a keypad being
  attached to receive the key-check command).
\<close>

theorem access_authorization:
  assumes sel: "selectAddressBlock addr rw = Inr (blk, start)" and no: "ak AND blk \<noteq> blk"
  shows "(blk \<noteq> abP1 \<longrightarrow> blk \<noteq> abIF \<longrightarrow> ReadByteAt m addr ak = Inl (UnauthorizedRead addr))
       \<and> (blk \<noteq> abRom \<longrightarrow> blk \<noteq> abP1 \<longrightarrow> blk \<noteq> abIF \<longrightarrow>
            WriteByteAt m addr v ak = Inl (UnauthorizedWrite addr v))
       \<and> (blk = abRom \<longrightarrow> WriteByteAt m addr v ak = Inr m)
       \<and> (blk = abP1 \<longrightarrow> ReadByteAt m addr ak = Inr (io_read (ioP1 m))
             \<and> (kp m \<longrightarrow> WriteByteAt m addr v ak
                   = Inr (m\<lparr>ioP1 := (ioP1 m)\<lparr>io_queued := True, io_write := v\<rparr>\<rparr>)))
       \<and> (blk = abIF \<longrightarrow> ReadByteAt m addr ak = Inr (io_read (ioIF m))
             \<and> WriteByteAt m addr v ak
                 = Inr (m\<lparr>ioIF := (ioIF m)\<lparr>io_queued := True, io_write := v\<rparr>\<rparr>))"
proof -
  have r: "selectAddressBlock addr ''read'' = Inr (blk, start)"
    and w: "selectAddressBlock addr ''write'' = Inr (blk, start)"
    using sel by (rule select_rw)+
  show ?thesis
    by (simp add: ReadByteAt_not_owner [OF r no] WriteByteAt_not_owner [OF w no] ab_defs)
qed


theorem access_authorization_witness:
  "selectAddressBlock 0x8000 ''read'' = Inr (abVRam, AddrVRam)
   \<and> ReadByteAt (NewMmu None) 0x8000 0 = Inl (UnauthorizedRead 0x8000)
   \<and> WriteByteAt (NewMmu None) 0x8000 0x07 0 = Inl (UnauthorizedWrite 0x8000 0x07)
   \<and> ReadByteAt (NewMmu None) 0x0000 abVRam = Inl (UnauthorizedRead 0x0000)
   \<and> WriteByteAt (NewMmu None) 0x0000 0x07 abVRam = Inr (NewMmu None)
   \<and> ReadByteAt (NewMmu None) 0xFF00 0 = Inr (io_read (ioP1 (NewMmu None)))
   \<and> kp (SetKeypad (NewMmu None))
   \<and> WriteByteAt (SetKeypad (NewMmu None)) 0xFF00 0x07 0
       = Inr ((SetKeypad (NewMmu None))
               \<lparr>ioP1 := (ioP1 (SetKeypad (NewMmu None)))\<lparr>io_queued := True, io_write := 0x07\<rparr>\<rparr>)"
proof -
  have v: "selectAddressBlock 0x8000 ''read'' = Inr (abVRam, AddrVRam)"
    and r: "selectAddressBlock 0x0000 ''read'' = Inr (abRom, 0)"
    and p: "selectAddressBlock 0xFF00 ''read'' = Inr (abP1, AddrP1)"
    by (simp_all add: selectAddressBlock_def addr_defs)
  have nv: "0 AND abVRam \<noteq> abVRam" and nr: "abVRam AND abRom \<noteq> abRom"
    and np: "0 AND abP1 \<noteq> abP1"
    by (simp_all add: ab_defs)
  have d: "abVRam \<noteq> abP1" "abVRam \<noteq> abIF" "abVRam \<noteq> abRom" "abRom \<noteq> abP1" "abRom \<noteq> abIF"
    by (simp_all add: ab_defs)
  have k: "kp (SetKeypad (NewMmu None))"
    by (simp add: SetKeypad_def)
  note a = access_authorization [OF v nv, of "NewMmu None" "0x07"]
  note b = access_authorization [OF r nr, of "NewMmu None" "0x07"]
  note c = access_authorization [OF p np, of "NewMmu None" "0x07"]
  note e = access_authorization [OF p np, of "SetKeypad (NewMmu None)" "0x07"]
  have 1: "ReadByteAt (NewMmu None) 0x8000 0 = Inl (UnauthorizedRead 0x8000)"
    and 2: "WriteByteAt (NewMmu None) 0x8000 0x07 0 = Inl (UnauthorizedWrite 0x8000 0x07)"
    using a d by blast+
  have 3: "ReadByteAt (NewMmu None) 0x0000 abVRam = Inl (UnauthorizedRead 0x0000)"
    and 4: "WriteByteAt (NewMmu None) 0x0000 0x07 abVRam = Inr (NewMmu None)"
    using b d by blast+
  have 5: "ReadByteAt (NewMmu None) 0xFF00 0 = Inr (io_read (ioP1 (NewMmu None)))"
    using c by blast
  have 6: "WriteByteAt (SetKeypad (NewMmu None)) 0xFF00 0x07 0
       = Inr ((SetKeypad (NewMmu None))
               \<lparr>ioP1 := (ioP1 (SetKeypad (NewMmu None)))\<lparr>io_queued := True, io_write := 0x07\<rparr>\<rparr>)"
    using e k by blast
  from v 1 2 3 4 5 k 6 show ?thesis by blast
qed

section \<open>The initial state\<close>

lemma reset_state:
  "reg_a (reset c) = 0 \<and> reg_b (reset c) = 0 \<and> reg_c (reset c) = 0 \<and> reg_d (reset c) = 0
   \<and> reg_e (reset c) = 0 \<and> reg_f (reset c) = 0 \<and> reg_h (reset c) = 0 \<and> reg_l (reset c) = 0
   \<and> sp (reset c) = 0xFFFE \<and> pc (reset c) = 0x0000
   \<and> m_cycles (reset c) = 0 \<and> t_cycles (reset c) = 0"
  by (simp add: reset_def set_f_def)

lemma newCpu_state:
  "reg_a (newCpu x) = 0 \<and> reg_b (newCpu x) = 0 \<and> reg_c (newCpu x) = 0 \<and> reg_d (newCpu x) = 0
   \<and> reg_e (newCpu x) = 0 \<and> reg_f (newCpu x) = 0 \<and> reg_h (newCpu x) = 0 \<and> reg_l (newCpu x) = 0
   \<and> sp (newCpu x) = 0xFFFE \<and> pc (newCpu x) = 0x0000"
  by (simp add: newCpu_def)

text \<open>
  Claim C10. After reset or construction the registers A to L are 0, SP is 0xFFFE, PC is
  0, IME is 1 and the boot ROM is mapped exactly when one was provided. \<open>reset\<close> and
  \<open>newCpu\<close> of the stand-alone cpu do set SP to 0xFFFE (\<open>reset_state\<close>, \<open>newCpu_state\<close>;
  that cpu has neither IME nor a boot ROM flag). \<open>NewCpu\<close> of package jibi does not: on
  a fresh Mmu, with any cartridge and any boot ROM, it returns a Cpu with the registers
  0, PC = 0, IME = 1 and the boot ROM mapped exactly when it is not empty, but with
  SP = 0x0000.
\<close>

theorem NewCpu_leaves_sp_zero:
  "\<exists>c. NewCpu (NewMmu cart) bs = Inr c
       \<and> reg_a c = 0 \<and> reg_b c = 0 \<and> reg_c c = 0 \<and> reg_d c = 0
       \<and> reg_e c = 0 \<and> reg_f c = 0 \<and> reg_h c = 0 \<and> reg_l c = 0
       \<and> pc c = 0x0000 \<and> ime c = 1 \<and> biosFinished c = (bs = [])
       \<and> sp c = 0x0000 \<and> sp c \<noteq> 0xFFFE"
  by (simp add: NewCpu_power_on) (simp add: power_on_def)

section \<open>Reads and writes of the Cpu\<close>

lemma select_IE: "selectAddressBlock AddrIE rw = Inr (abIE, AddrIE)"
  by (simp add: selectAddressBlock_def addr_defs)

lemma select_IF: "selectAddressBlock AddrIF rw = Inr (abIF, AddrIF)"
  by (simp add: selectAddressBlock_def addr_defs)

lemma ReadByteAt_IE: "ak AND abIE = abIE \<Longrightarrow> ReadByteAt m AddrIE ak = Inr (ie m)"
  by (simp add: ReadByteAt_def select_IE bindE_def Let_def ab_defs)

lemma ReadByteAt_IF: "ak AND abIF = abIF \<Longrightarrow> ReadByteAt m AddrIF ak = Inr (io_value (ioIF m))"
  by (simp add: ReadByteAt_def select_IF bindE_def Let_def ab_defs mmio_readByte_def)

lemma WriteByteAt_IF:
  "ak AND abIF = abIF \<Longrightarrow>
     WriteByteAt m AddrIF v ak = Inr (m\<lparr>ioIF := mmio_writeByte (ioIF m) v True\<rparr>)"
  by (simp add: WriteByteAt_def select_IF bindE_def Let_def ab_defs)

lemma readByte_IE:
  "mmuKeys c AND abIE = abIE \<Longrightarrow> readByte c AddrIE = Inr (ie (mmu c), c)"
  by (simp add: readByte_def ReadByteAt_IE bindE_def) (simp add: addr_defs)

lemma readByte_IF:
  "mmuKeys c AND abIF = abIF \<Longrightarrow> readByte c AddrIF = Inr (io_value (ioIF (mmu c)), c)"
  by (simp add: readByte_def ReadByteAt_IF bindE_def) (simp add: addr_defs)

lemma writeByte_IF:
  "mmuKeys c AND abIF = abIF \<Longrightarrow>
     writeByte c AddrIF v = Inr (c\<lparr>mmu := (mmu c)\<lparr>ioIF := mmio_writeByte (ioIF (mmu c)) v True\<rparr>\<rparr>)"
  by (simp add: writeByte_def WriteByteAt_IF bindE_def) (simp add: addr_defs)


lemma LockAddr_result:
  assumes "LockAddr m a k = Inr (k', m')"
  shows "\<exists>blk st. selectAddressBlock a ''lock'' = Inr (blk, st)
       \<and> ((k' = k \<and> m' = m) \<or> (k' = k OR blk \<and> m' = m\<lparr>locks := (locks m)(blk \<mapsto> True)\<rparr>))"
proof (cases "selectAddressBlock a ''lock''")
  case (Inl e)
  with assms show ?thesis by (simp add: LockAddr_def bindE_def)
next
  case (Inr x)
  obtain blk st where x: "x = (blk, st)" by (cases x)
  show ?thesis
    using assms unfolding LockAddr_def Inr x bindE_def
    by (auto split: if_splits option.splits bool.splits)
qed

lemma UnlockAddr_result:
  assumes "UnlockAddr m a k = Inr (k', m')"
  shows "\<exists>blk st. selectAddressBlock a ''unlock'' = Inr (blk, st)
       \<and> ((k' = k \<and> m' = m)
          \<or> (k' = k AND (blk XOR 0xFFFF) \<and> m' = m\<lparr>locks := (locks m)(blk \<mapsto> False)\<rparr>))"
proof (cases "selectAddressBlock a ''unlock''")
  case (Inl e)
  with assms show ?thesis by (simp add: UnlockAddr_def bindE_def)
next
  case (Inr x)
  obtain blk st where x: "x = (blk, st)" by (cases x)
  show ?thesis
    using assms unfolding UnlockAddr_def Inr x bindE_def
    by (auto split: if_splits option.splits bool.splits)
qed


lemma select_IE_only: "selectAddressBlock a rw = Inr (abIE, st) \<Longrightarrow> a = 0xFFFF"
  by (auto simp: selectAddressBlock_def ab_defs addr_defs split: if_splits prod.splits)

lemma bindE_Inr: "bindE (Inr x) g = g x"
  by (simp add: bindE_def)

lemma bindE_Inl: "bindE (Inl e) g = Inl e"
  by (simp add: bindE_def)

lemma bindE_eq_Inr: "bindE x g = Inr y \<Longrightarrow> \<exists>z. x = Inr z \<and> g z = Inr y"
  by (cases x) (simp_all add: bindE_def)

lemma WriteByteAt_frame:
  assumes w: "WriteByteAt m a v k = Inr m'"
  shows "locks m' = locks m \<and> (a \<noteq> 0xFFFF \<longrightarrow> ie m' = ie m)"
proof -
  obtain blk st where s: "selectAddressBlock a ''write'' = Inr (blk, st)"
    using w by (cases "selectAddressBlock a ''write''") (auto simp: WriteByteAt_def bindE_def)
  have e: "blk = abIE \<Longrightarrow> a = 0xFFFF"
    using select_IE_only s by blast
  have f: "\<And>ad ow. write_fallthrough m ad v ow = Inr m' \<Longrightarrow> m' = m"
    by (auto simp: write_fallthrough_def split: if_splits prod.splits)
  show ?thesis
    using w e
    by (auto simp: WriteByteAt_def s bindE_Inr Let_def split: if_splits
        dest!: f bindE_eq_Inr)
qed


lemma holds_IF: "((k :: AddressKeys) AND abIF = abIF) = bit k 7"
  using bit_present_iff [of 7 k] by (simp add: abIF_def)

lemma keep_IF_key:
  assumes "(k :: AddressKeys) AND abIF = abIF" and "blk = abVRam \<or> blk = abOam"
  shows "(k OR blk) AND abIF = abIF" and "(k AND (blk XOR 0xFFFF)) AND abIF = abIF"
proof -
  have k7: "bit k 7" using assms(1) by (simp add: holds_IF)
  have b7: "\<not> bit blk 7" using assms(2) by (auto simp: abVRam_def abOam_def)
  have "bit (k OR blk) 7" using k7 by (simp add: bit_simps)
  then show "(k OR blk) AND abIF = abIF" by (simp add: holds_IF)
  have "bit (k AND NOT blk) 7" using k7 b7 by (simp add: bit_simps)
  then show "(k AND (blk XOR 0xFFFF)) AND abIF = abIF" by (simp add: holds_IF xor_ffff)
qed

lemma lockAddr_result:
  assumes "lockAddr c a = Inr c1"
  shows "\<exists>k' m'. LockAddr (mmu c) a (mmuKeys c) = Inr (k', m') \<and> c1 = c\<lparr>mmu := m', mmuKeys := k'\<rparr>"
  using assms by (cases "LockAddr (mmu c) a (mmuKeys c)") (auto simp: lockAddr_def bindE_def)

lemma unlockAddr_result:
  assumes "unlockAddr c a = Inr c1"
  shows "\<exists>k' m'. UnlockAddr (mmu c) a (mmuKeys c) = Inr (k', m') \<and> c1 = c\<lparr>mmu := m', mmuKeys := k'\<rparr>"
  using assms by (cases "UnlockAddr (mmu c) a (mmuKeys c)") (auto simp: unlockAddr_def bindE_def)

lemma select_region:
  "selectAddressBlock AddrVRam rw = Inr (abVRam, AddrVRam)"
  "selectAddressBlock AddrOam rw = Inr (abOam, AddrOam)"
  by (simp_all add: selectAddressBlock_def addr_defs)

lemma locked_write_frame:
  assumes lw: "locked_write c region a v = Inr c1"
    and reg: "region = AddrVRam \<or> region = AddrOam"
  shows "c1 = c\<lparr>mmu := mmu c1, mmuKeys := mmuKeys c1\<rparr>
       \<and> (a \<noteq> 0xFFFF \<longrightarrow> ie (mmu c1) = ie (mmu c))
       \<and> (mmuKeys c AND abIF = abIF \<longrightarrow> mmuKeys c1 AND abIF = abIF)"
proof -
  obtain c2 where l: "lockAddr c region = Inr c2"
    and r2: "bindE (WriteByteAt (mmu c2) a v (mmuKeys c2)) (\<lambda>m. unlockAddr (c2\<lparr>mmu := m\<rparr>) region)
             = Inr c1"
    using bindE_eq_Inr [OF lw [unfolded locked_write_def]] by blast
  obtain m3 where w: "WriteByteAt (mmu c2) a v (mmuKeys c2) = Inr m3"
    and u: "unlockAddr (c2\<lparr>mmu := m3\<rparr>) region = Inr c1"
    using bindE_eq_Inr [OF r2] by blast
  obtain k2 m2 where L: "LockAddr (mmu c) region (mmuKeys c) = Inr (k2, m2)"
    and c2: "c2 = c\<lparr>mmu := m2, mmuKeys := k2\<rparr>"
    using lockAddr_result [OF l] by blast
  obtain k4 m4 where U: "UnlockAddr m3 region k2 = Inr (k4, m4)"
    and c1: "c1 = c\<lparr>mmu := m4, mmuKeys := k4\<rparr>"
    using unlockAddr_result [OF u] by (auto simp: c2)
  obtain blk st where sl: "selectAddressBlock region ''lock'' = Inr (blk, st)"
    and kl: "k2 = mmuKeys c \<or> k2 = mmuKeys c OR blk"
    and ml: "m2 = mmu c \<or> m2 = (mmu c)\<lparr>locks := (locks (mmu c))(blk \<mapsto> True)\<rparr>"
    using LockAddr_result [OF L] by blast
  obtain blk' st' where su: "selectAddressBlock region ''unlock'' = Inr (blk', st')"
    and ku: "k4 = k2 \<or> k4 = k2 AND (blk' XOR 0xFFFF)"
    and mu: "m4 = m3 \<or> m4 = m3\<lparr>locks := (locks m3)(blk' \<mapsto> False)\<rparr>"
    using UnlockAddr_result [OF U] by blast
  have b: "blk = abVRam \<or> blk = abOam" and b': "blk' = abVRam \<or> blk' = abOam"
    using reg sl su by (auto simp: select_region)
  have ie2: "ie m2 = ie (mmu c)" using ml by auto
  have ie4: "ie m4 = ie m3" using mu by auto
  have ie3: "a \<noteq> 0xFFFF \<longrightarrow> ie m3 = ie m2"
    using WriteByteAt_frame [OF w] by (simp add: c2)
  have keys: "mmuKeys c AND abIF = abIF \<longrightarrow> k4 AND abIF = abIF"
  proof
    assume h: "mmuKeys c AND abIF = abIF"
    have "k2 AND abIF = abIF" using kl keep_IF_key(1) [OF h b] h by auto
    then show "k4 AND abIF = abIF" using ku keep_IF_key(2) [OF _ b'] by auto
  qed
  have frame: "c1 = c\<lparr>mmu := mmu c1, mmuKeys := mmuKeys c1\<rparr>"
    by (simp add: c1)
  have "mmu c1 = m4" and "mmuKeys c1 = k4"
    by (simp_all add: c1)
  with frame ie2 ie3 ie4 keys show ?thesis
    by simp
qed

lemma writeByte_frame:
  assumes w: "writeByte c a v = Inr c1"
  shows "c1 = c\<lparr>mmu := mmu c1, mmuKeys := mmuKeys c1\<rparr>
       \<and> (a \<noteq> 0xFFFF \<longrightarrow> ie (mmu c1) = ie (mmu c))
       \<and> (mmuKeys c AND abIF = abIF \<longrightarrow> mmuKeys c1 AND abIF = abIF)"
proof -
  consider (v) "(AddrVRam \<le> a \<and> a \<le> AddrRam) = True"
    | (o) "(AddrVRam \<le> a \<and> a \<le> AddrRam) = False" "(AddrOam \<le> a \<and> a \<le> AddrOamEnd) = True"
    | (d) "(AddrVRam \<le> a \<and> a \<le> AddrRam) = False" "(AddrOam \<le> a \<and> a \<le> AddrOamEnd) = False"
    by blast
  then show ?thesis
  proof cases
    case v
    have "locked_write c AddrVRam a v = Inr c1"
      using w unfolding writeByte_def by (simp only: v if_True if_False)
    then show ?thesis by (rule locked_write_frame) simp
  next
    case o
    have "locked_write c AddrOam a v = Inr c1"
      using w unfolding writeByte_def by (simp only: o if_True if_False)
    then show ?thesis by (rule locked_write_frame) simp
  next
    case d
    have "bindE (WriteByteAt (mmu c) a v (mmuKeys c)) (\<lambda>m. Inr (c\<lparr>mmu := m\<rparr>)) = Inr c1"
      using w unfolding writeByte_def by (simp only: d if_True if_False)
    then obtain m where m: "WriteByteAt (mmu c) a v (mmuKeys c) = Inr m"
      and c1: "c1 = c\<lparr>mmu := m\<rparr>"
      using bindE_eq_Inr by fastforce
    have frame: "c1 = c\<lparr>mmu := mmu c1, mmuKeys := mmuKeys c1\<rparr>"
      by (simp add: c1)
    have "mmu c1 = m" and "mmuKeys c1 = mmuKeys c"
      by (simp_all add: c1)
    with frame WriteByteAt_frame [OF m] show ?thesis
      by simp
  qed
qed

lemma bit_nonzero: "bit (w::Byte) k \<Longrightarrow> w \<noteq> 0"
  by auto

lemma nonzero_bit: "(w::Byte) \<noteq> 0 \<Longrightarrow> \<exists>n. bit w n"
  by (auto simp: bit_eq_iff)

lemma bit_test: "k < 8 \<Longrightarrow> ((2 ^ k :: Byte) AND e AND f \<noteq> 0) = bit (e AND f) k"
proof
  assume k: "k < 8" and "(2 ^ k :: Byte) AND e AND f \<noteq> 0"
  then obtain n where "bit ((2 ^ k :: Byte) AND e AND f) n"
    using nonzero_bit by blast
  then show "bit (e AND f) k"
    by (auto simp: bit_simps)
next
  assume k: "k < 8" and b: "bit (e AND f) k"
  then have "bit ((2 ^ k :: Byte) AND e AND f) k"
    by (simp add: bit_simps)
  then show "(2 ^ k :: Byte) AND e AND f \<noteq> 0"
    by (rule bit_nonzero)
qed

lemma getInterrupt_bits:
  "getInterrupt e f =
     (if bit (e AND f) 0 then 1 else if bit (e AND f) 1 then 2 else if bit (e AND f) 2 then 4
      else if bit (e AND f) 3 then 8 else if bit (e AND f) 4 then 16 else 0)"
  using bit_test [of 0 e f] bit_test [of 1 e f] bit_test [of 2 e f] bit_test [of 3 e f]
    bit_test [of 4 e f]
  by (simp add: getInterrupt_def InterruptVblank_def InterruptLCDC_def InterruptTimer_def
      InterruptSerial_def InterruptKeypad_def)

lemma pending_low5: "((e::Byte) AND f AND 0x1F \<noteq> 0) =
   (bit (e AND f) 0 \<or> bit (e AND f) 1 \<or> bit (e AND f) 2 \<or> bit (e AND f) 3 \<or> bit (e AND f) 4)"
proof
  have m: "(0x1F :: Byte) = mask 5" by (simp add: mask_eq_exp_minus_1)
  assume "e AND f AND 0x1F \<noteq> 0"
  then obtain n where "bit (e AND f AND mask 5) n"
    unfolding m using nonzero_bit by blast
  then have n: "n < 5" and b: "bit (e AND f) n"
    by (auto simp: bit_simps)
  from n consider "n = 0" | "n = 1" | "n = 2" | "n = 3" | "n = 4" by arith
  then show "bit (e AND f) 0 \<or> bit (e AND f) 1 \<or> bit (e AND f) 2 \<or> bit (e AND f) 3 \<or> bit (e AND f) 4"
    using b by cases auto
next
  have m: "(0x1F :: Byte) = mask 5" by (simp add: mask_eq_exp_minus_1)
  assume "bit (e AND f) 0 \<or> bit (e AND f) 1 \<or> bit (e AND f) 2 \<or> bit (e AND f) 3 \<or> bit (e AND f) 4"
  moreover have "(0::nat) < 5" "(1::nat) < 5" "(2::nat) < 5" "(3::nat) < 5" "(4::nat) < 5"
    by simp_all
  ultimately obtain n where "n < 5" and "bit (e AND f) n"
    by blast
  then have "bit (e AND f AND mask 5) n"
    by (simp add: bit_simps)
  then show "e AND f AND 0x1F \<noteq> 0"
    unfolding m by (rule bit_nonzero)
qed

lemma getInterrupt_lowest:
  assumes "(e::Byte) AND f AND 0x1F \<noteq> 0"
  shows "\<exists>k<5. getInterrupt e f = 2 ^ k \<and> bit (e AND f) k \<and> (\<forall>j<k. \<not> bit (e AND f) j)"
proof -
  let ?p = "e AND f"
  consider "bit ?p 0" | "\<not> bit ?p 0" "bit ?p 1" | "\<not> bit ?p 0" "\<not> bit ?p 1" "bit ?p 2"
    | "\<not> bit ?p 0" "\<not> bit ?p 1" "\<not> bit ?p 2" "bit ?p 3"
    | "\<not> bit ?p 0" "\<not> bit ?p 1" "\<not> bit ?p 2" "\<not> bit ?p 3" "bit ?p 4"
    using assms unfolding pending_low5 by blast
  then show ?thesis
  proof cases
    case 1
    then show ?thesis by (intro exI [of _ 0]) (simp add: getInterrupt_bits)
  next
    case 2
    then show ?thesis by (intro exI [of _ 1]) (simp add: getInterrupt_bits)
  next
    case 3
    have "\<And>j::nat. j < 2 \<Longrightarrow> j = 0 \<or> j = 1" by arith
    with 3 show ?thesis by (intro exI [of _ 2]) (auto simp: getInterrupt_bits)
  next
    case 4
    have "\<And>j::nat. j < 3 \<Longrightarrow> j = 0 \<or> j = 1 \<or> j = 2" by arith
    with 4 show ?thesis by (intro exI [of _ 3]) (auto simp: getInterrupt_bits)
  next
    case 5
    have "\<And>j::nat. j < 4 \<Longrightarrow> j = 0 \<or> j = 1 \<or> j = 2 \<or> j = 3" by arith
    with 5 show ?thesis by (intro exI [of _ 4]) (auto simp: getInterrupt_bits)
  qed
qed

lemma Address_vector: "k < 5 \<Longrightarrow> Address (2 ^ k) = 0x40 + 8 * of_nat k"
proof -
  assume "k < 5"
  then consider "k = 0" | "k = 1" | "k = 2" | "k = 3" | "k = 4" by arith
  then show ?thesis
    by cases (simp_all add: Address_def InterruptVblank_def InterruptLCDC_def InterruptTimer_def
      InterruptSerial_def InterruptKeypad_def)
qed



lemma stack_not_IE:
  "(s::Word) \<noteq> 1 \<Longrightarrow> s - 2 \<noteq> 0xFFFF" "(s::Word) \<noteq> 0 \<Longrightarrow> s - 2 + 1 \<noteq> 0xFFFF"
proof -
  have a: "s - 2 = 0xFFFF \<Longrightarrow> s = 1"
  proof -
    assume "s - 2 = 0xFFFF"
    then have "s = 0xFFFF + 2" by (metis diff_add_cancel)
    then show "s = 1" by simp
  qed
  have b: "s - 2 + 1 = 0xFFFF \<Longrightarrow> s = 0"
  proof -
    assume "s - 2 + 1 = 0xFFFF"
    then have "s - 1 = 0xFFFF" by simp
    then have "s = 0xFFFF + 1" by (metis diff_add_cancel)
    then show "s = 0" by simp
  qed
  show "s \<noteq> 1 \<Longrightarrow> s - 2 \<noteq> 0xFFFF" using a by blast
  show "s \<noteq> 0 \<Longrightarrow> s - 2 + 1 \<noteq> 0xFFFF" using b by blast
qed

lemma push_frame:
  assumes p: "push c w = Inr c1"
  shows "c1 = c\<lparr>sp := sp c - 2, mmu := mmu c1, mmuKeys := mmuKeys c1\<rparr>
       \<and> (sp c \<noteq> 0 \<longrightarrow> sp c \<noteq> 1 \<longrightarrow> ie (mmu c1) = ie (mmu c))
       \<and> (mmuKeys c AND abIF = abIF \<longrightarrow> mmuKeys c1 AND abIF = abIF)"
proof -
  obtain c3 where ww: "writeWord c (sp c - 2) w = Inr c3" and c1: "c1 = c3\<lparr>sp := sp c3 - 2\<rparr>"
    using bindE_eq_Inr [OF p [unfolded push_def]] by auto
  obtain c2 where w1: "writeByte c (sp c - 2) (Low w) = Inr c2"
    and w2: "writeByte c2 (sp c - 2 + 1) (High w) = Inr c3"
    using bindE_eq_Inr [OF ww [unfolded writeWord_def]] by auto
  note f1 = writeByte_frame [OF w1]
  note f2 = writeByte_frame [OF w2]
  have c2: "c2 = c\<lparr>mmu := mmu c2, mmuKeys := mmuKeys c2\<rparr>" using f1 by blast
  have c3: "c3 = c2\<lparr>mmu := mmu c3, mmuKeys := mmuKeys c3\<rparr>" using f2 by blast
  have sp3: "sp c3 = sp c"
    by (subst c3, subst c2) simp
  have c3': "c3 = c\<lparr>mmu := mmu c3, mmuKeys := mmuKeys c3\<rparr>"
    by (subst c3, subst c2) simp
  have frame: "c1 = c\<lparr>sp := sp c - 2, mmu := mmu c1, mmuKeys := mmuKeys c1\<rparr>"
    unfolding c1 sp3 by (subst c3') simp
  have m1: "mmu c1 = mmu c3" and k1: "mmuKeys c1 = mmuKeys c3"
    by (simp_all add: c1)
  have ie: "sp c \<noteq> 0 \<longrightarrow> sp c \<noteq> 1 \<longrightarrow> ie (mmu c1) = ie (mmu c)"
    using f1 f2 stack_not_IE [of "sp c"] by (simp add: m1)
  have keys: "mmuKeys c AND abIF = abIF \<longrightarrow> mmuKeys c1 AND abIF = abIF"
    using f1 f2 by (simp add: k1)
  from frame ie keys show ?thesis by blast
qed


lemma xor_ff: "(i :: Byte) XOR 0xFF = NOT i"
proof -
  have "(0xFF :: Byte) = - 1" by simp
  then show ?thesis by (simp only: bit.xor_one_right)
qed

lemma interrupt_bit_positive: "k < 5 \<Longrightarrow> (2 ^ k :: Byte) > 0"
proof -
  assume "k < 5"
  then consider "k = 0" | "k = 1" | "k = 2" | "k = 3" | "k = 4" by arith
  then show ?thesis by cases simp_all
qed

lemma mmio_owner_write_value: "io_value (mmio_writeByte port v True) = v"
  by (simp add: mmio_writeByte_def Let_def)

lemma high_ram_ranges:
  assumes "0xFF80 \<le> (a::Word)" and "a < 0xFFFF"
  shows "\<not> a < 0x8000 \<and> \<not> a < 0xA000 \<and> \<not> a < 0xC000 \<and> \<not> a < 0xFE00 \<and> \<not> a < 0xFEA0
    \<and> a \<noteq> 0xFF00 \<and> a \<noteq> 0xFF0F \<and> \<not> a < 0xFF4C"
  using assms by unat_arith

lemma select_zero:
  assumes "0xFF80 \<le> a" and "a < 0xFFFF"
  shows "selectAddressBlock a rw = Inr (abZero, AddrZero)"
  using assms high_ram_ranges [OF assms]
  by (simp add: selectAddressBlock_def addr_defs)


lemma high_ram_unlocked:
  assumes "0xFF80 \<le> (a::Word)"
  shows "(0x8000 \<le> a \<and> a \<le> 0xC000) = False" and "(0xFE00 \<le> a \<and> a \<le> 0xFEA0) = False"
  using assms by unat_arith+

lemma high_ram_offset: "0xFF80 \<le> (a::Word) \<Longrightarrow> a < 0xFFFF \<Longrightarrow> unat (a - 0xFF80) < 0x100"
  by unat_arith

lemma WriteByteAt_zero:
  assumes lo: "0xFF80 \<le> a" and hi: "a < 0xFFFF"
    and key: "ak AND abZero = abZero" and len: "length (zero m) = 0x100"
  shows "WriteByteAt m a v ak = Inr (m\<lparr>zero := (zero m)[unat (a - 0xFF80) := v]\<rparr>)"
proof -
  have i: "unat (a - AddrZero) < length (zero m)"
    using high_ram_offset [OF lo hi] len by (simp add: AddrZero_def)
  have o: "ak AND 512 = 512" using key by (simp add: abZero_def)
  show ?thesis
    unfolding WriteByteAt_def select_zero [OF lo hi] bindE_Inr
    using i by (simp add: Let_def o store_def bindE_Inr ab_defs AddrZero_def)
qed


lemma writeByte_zero:
  assumes lo: "0xFF80 \<le> a" and hi: "a < 0xFFFF"
    and key: "mmuKeys c AND abZero = abZero" and len: "length (zero (mmu c)) = 0x100"
  shows "writeByte c a v = Inr (c\<lparr>mmu := (mmu c)\<lparr>zero := (zero (mmu c))[unat (a - 0xFF80) := v]\<rparr>\<rparr>)"
  unfolding writeByte_def addr_defs
  by (simp only: high_ram_unlocked [OF lo] if_False WriteByteAt_zero [OF lo hi key len] bindE_Inr)

lemma stack_in_high_ram:
  assumes a: "0xFF82 \<le> (s::Word)"
  shows "0xFF80 \<le> s - 2" and "s - 2 < 0xFFFF" and "0xFF80 \<le> s - 2 + 1" and "s - 2 + 1 < 0xFFFF"
proof -
  have b: "unat s < 65536" using unsigned_less [of s, where 'a = nat] by simp
  show "0xFF80 \<le> s - 2" and "0xFF80 \<le> s - 2 + 1" using a by unat_arith+
  have "2 \<le> s" using a by unat_arith
  then have "unat (s - 2) = unat s - 2" by (simp add: unat_sub)
  with b have "unat (s - 2) < 65535" by simp
  then show "s - 2 < 0xFFFF" by (simp add: word_less_nat_alt)
  have "s \<noteq> 0" using a by auto
  then have "unat (s - 1) = unat s - 1" by (simp add: unat_minus_one)
  with b a have "unat (s - 1) < 65535" by (simp add: word_le_nat_alt)
  then show "s - 2 + 1 < 0xFFFF" by (simp add: word_less_nat_alt)
qed

lemma push_high_ram:
  assumes st: "0xFF82 \<le> sp c"
    and key: "mmuKeys c AND abZero = abZero" and len: "length (zero (mmu c)) = 0x100"
  shows "push c w = Inr (c\<lparr>sp := sp c - 2,
           mmu := (mmu c)\<lparr>zero := (zero (mmu c))
                    [unat (sp c - 2 - 0xFF80) := Low w, unat (sp c - 2 + 1 - 0xFF80) := High w]\<rparr>\<rparr>)"
proof -
  note a = stack_in_high_ram [OF st]
  let ?c2 = "c\<lparr>mmu := (mmu c)\<lparr>zero := (zero (mmu c))[unat (sp c - 2 - 0xFF80) := Low w]\<rparr>\<rparr>"
  have w1: "writeByte c (sp c - 2) (Low w) = Inr ?c2"
    by (rule writeByte_zero [OF a(1) a(2) key len])
  have k2: "mmuKeys ?c2 AND abZero = abZero" and l2: "length (zero (mmu ?c2)) = 0x100"
    using key len by simp_all
  have w2: "writeByte ?c2 (sp c - 2 + 1) (High w)
      = Inr (?c2\<lparr>mmu := (mmu ?c2)\<lparr>zero := (zero (mmu ?c2))[unat (sp c - 2 + 1 - 0xFF80) := High w]\<rparr>\<rparr>)"
    by (rule writeByte_zero [OF a(3) a(4) k2 l2])
  show ?thesis
    unfolding push_def writeWord_def w1 bindE_Inr w2 by simp
qed


section \<open>Interrupt dispatch\<close>

lemma scenario_keys:
  "mmuKeys (interrupt_scenario s p) AND abIF = abIF"
  "mmuKeys (interrupt_scenario s p) AND abIE = abIE"
  by (simp_all add: interrupt_scenario_def power_on_def ab_defs)

lemma minus_one_word: "(- 1 :: Word) = 0xFFFF"
  by simp

lemma minus_two_word: "(- 2 :: Word) = 0xFFFE"
  by simp

lemma scenario_push_top:
  "push ((interrupt_scenario 0xFFFE 0x1234)\<lparr>ime := 0\<rparr>) 0x1234
     = Inr ((interrupt_scenario 0xFFFE 0x1234)
             \<lparr>ime := 0, sp := 0xFFFC,
              mmu := (mmu (interrupt_scenario 0xFFFE 0x1234))
                       \<lparr>zero := (replicate 0x100 0)[0x7C := 0x34, 0x7D := 0x12]\<rparr>\<rparr>)"
proof -
  have l: "Low 0x1234 = 0x34" and h: "High 0x1234 = 0x12"
    by (simp_all add: Low_def High_def)
  show ?thesis
    by (simp add: push_def writeWord_def writeByte_def WriteByteAt_def selectAddressBlock_def
        bindE_def Let_def store_def l h addr_defs ab_defs interrupt_scenario_def
        power_on_def NewMmu_def)
qed

lemma scenario_push_zero:
  "push ((interrupt_scenario 0x0000 0x0150)\<lparr>ime := 0\<rparr>) 0x0150
     = Inr ((interrupt_scenario 0x0000 0x0150)
             \<lparr>ime := 0, sp := 0xFFFE,
              mmu := (mmu (interrupt_scenario 0x0000 0x0150))
                       \<lparr>zero := (replicate 0x100 0)[0x7E := 0x50], ie := 0x01\<rparr>\<rparr>)"
proof -
  have l: "Low 0x0150 = 0x50" and h: "High 0x0150 = 0x01"
    by (simp_all add: Low_def High_def)
  show ?thesis
    by (simp add: push_def writeWord_def writeByte_def WriteByteAt_def selectAddressBlock_def
        bindE_def Let_def store_def l h addr_defs ab_defs interrupt_scenario_def
        power_on_def NewMmu_def minus_one_word minus_two_word)
qed


lemma scenario_fields:
  "ime (interrupt_scenario s p) = 1"
  "pc (interrupt_scenario s p) = p"
  "sp (interrupt_scenario s p) = s"
  "ie (mmu (interrupt_scenario s p)) = 0x05"
  "io_value (ioIF (mmu (interrupt_scenario s p))) = 0x05"
  by (simp_all add: interrupt_scenario_def power_on_def)

lemma getInterrupt_5_5: "getInterrupt 0x05 0x05 = 0x01"
  by (simp add: getInterrupt_def InterruptVblank_def)

text \<open>
  Claim C1, as stated, has the dispatch leave IE unchanged whenever IME is 1 and a bit is
  pending. The push of PC is a store to memory, and IE is memory: on the Cpu that
  \<open>NewCpu\<close> builds, whose SP is 0, with PC = 0x0150, IE = IF = 0x05, the push stores
  the low byte of PC at 0xFFFE and the high byte at 0xFFFF, so the dispatch ends with
  IE = 0x01 (and PC = 0x0040, IME = 0, IF = 0x04).
\<close>

theorem interrupt_dispatch_counterexample:
  "ie (mmu (interrupt_scenario 0x0000 0x0150)) = 0x05
   \<and> interrupt (interrupt_scenario 0x0000 0x0150)
       = Inr ((interrupt_scenario 0x0000 0x0150)
               \<lparr>sp := 0xFFFE, pc := 0x0040, ime := 0,
                mmu := (mmu (interrupt_scenario 0x0000 0x0150))
                  \<lparr>zero := (replicate 0x100 0)[0x7E := 0x50], ie := 0x01,
                   ioIF := (ioIF (mmu (interrupt_scenario 0x0000 0x0150)))
                     \<lparr>io_value := 0x04, io_read := 0x04, io_write := 0x04\<rparr>\<rparr>\<rparr>)"
proof -
  let ?c = "interrupt_scenario 0x0000 0x0150"
  let ?c1 = "?c\<lparr>ime := 0, sp := 0xFFFE,
                 mmu := (mmu ?c)\<lparr>zero := (replicate 0x100 0)[0x7E := 0x50], ie := 0x01\<rparr>\<rparr>"
  have k: "mmuKeys (jp ?c1 (Address 0x01)) AND abIF = abIF"
    by (simp add: jp_def scenario_keys)
  have "interrupt ?c = resetInterrupt (jp ?c1 (Address 0x01)) 0x01 0x05"
    by (simp add: interrupt_def scenario_fields readByte_IE [OF scenario_keys(2)]
        readByte_IF [OF scenario_keys(1)] bindE_Inr Let_def getInterrupt_5_5 scenario_push_zero)
  also have "\<dots> = Inr (?c\<lparr>sp := 0xFFFE, pc := 0x0040, ime := 0,
                mmu := (mmu ?c)
                  \<lparr>zero := (replicate 0x100 0)[0x7E := 0x50], ie := 0x01,
                   ioIF := (ioIF (mmu ?c))
                     \<lparr>io_value := 0x04, io_read := 0x04, io_write := 0x04\<rparr>\<rparr>\<rparr>)"
    unfolding resetInterrupt_def writeByte_IF [OF k]
    by (simp add: jp_def Address_def InterruptVblank_def mmio_writeByte_def Let_def
        interrupt_scenario_def power_on_def NewMmu_def newMmio_def)
  finally show ?thesis
    by (simp add: scenario_fields)
qed

text \<open>
  Claim C1, amended. Let IME be 1, let the Cpu hold the keys of IF and IE, and let one of
  the five interrupt bits (mask 0x1F) be set in both IE and IF. If the push of PC
  completes (\<open>push_high_ram\<close>: it does when the stack lies in high RAM) and stores
  nothing at 0xFFFF (SP is neither 0 nor 1), then \<open>interrupt\<close> returns; with \<open>k\<close> the
  lowest bit set in both IE and IF, the result is the state after the push with PC set
  to the vector \<open>0x40 + 8 * k\<close> and bit \<open>k\<close> alone cleared in IF: IME is 0, SP is two
  less, the other bits of IF and all of IE are unchanged.
\<close>

theorem interrupt_dispatch:
  assumes en: "ime c = 1"
    and ownIF: "mmuKeys c AND abIF = abIF" and ownIE: "mmuKeys c AND abIE = abIE"
    and pend: "ie (mmu c) AND io_value (ioIF (mmu c)) AND 0x1F \<noteq> 0"
    and pushed: "push (c\<lparr>ime := 0\<rparr>) (pc c) = Inr c1"
    and s0: "sp c \<noteq> 0" and s1: "sp c \<noteq> 1"
  shows "\<exists>k c'. k < 5
      \<and> bit (ie (mmu c) AND io_value (ioIF (mmu c))) k
      \<and> (\<forall>j<k. \<not> bit (ie (mmu c) AND io_value (ioIF (mmu c))) j)
      \<and> interrupt c = Inr c'
      \<and> c' = c1\<lparr>pc := 0x40 + 8 * of_nat k,
                mmu := (mmu c1)\<lparr>ioIF := mmio_writeByte (ioIF (mmu c1))
                         (io_value (ioIF (mmu c)) AND NOT (2 ^ k)) True\<rparr>\<rparr>
      \<and> ime c' = 0 \<and> pc c' = 0x40 + 8 * of_nat k \<and> sp c' = sp c - 2
      \<and> io_value (ioIF (mmu c')) = io_value (ioIF (mmu c)) AND NOT (2 ^ k)
      \<and> ie (mmu c') = ie (mmu c)"
proof -
  let ?e = "ie (mmu c)" and ?f = "io_value (ioIF (mmu c))"
  obtain k where k: "k < 5" and gi: "getInterrupt ?e ?f = 2 ^ k"
    and set: "bit (?e AND ?f) k" and low: "\<forall>j<k. \<not> bit (?e AND ?f) j"
    using getInterrupt_lowest [OF pend] by blast
  let ?c' = "c1\<lparr>pc := 0x40 + 8 * of_nat k,
                mmu := (mmu c1)\<lparr>ioIF := mmio_writeByte (ioIF (mmu c1)) (?f AND NOT (2 ^ k)) True\<rparr>\<rparr>"
  note pf = push_frame [OF pushed]
  have c1: "c1 = c\<lparr>ime := 0, sp := sp c - 2, mmu := mmu c1, mmuKeys := mmuKeys c1\<rparr>"
    using pf by simp
  have ime1: "ime c1 = 0" and sp1: "sp c1 = sp c - 2"
    by (subst c1, simp)+
  have ie1: "ie (mmu c1) = ie (mmu c)"
    using pf s0 s1 by simp
  have k1: "mmuKeys (jp c1 (Address (2 ^ k))) AND abIF = abIF"
    using pf ownIF by (simp add: jp_def)
  have wr: "resetInterrupt (jp c1 (Address (2 ^ k))) (2 ^ k) ?f = Inr ?c'"
    unfolding resetInterrupt_def writeByte_IF [OF k1]
    by (simp add: jp_def xor_ff Address_vector [OF k])
  have run: "interrupt c = Inr ?c'"
    using interrupt_bit_positive [OF k]
    by (simp add: interrupt_def en readByte_IE [OF ownIE] readByte_IF [OF ownIF] bindE_Inr
        Let_def gi pushed wr)
  have "ime ?c' = 0" and "pc ?c' = 0x40 + 8 * of_nat k" and "sp ?c' = sp c - 2"
    and "io_value (ioIF (mmu ?c')) = ?f AND NOT (2 ^ k)" and "ie (mmu ?c') = ie (mmu c)"
    by (simp_all add: ime1 sp1 ie1 mmio_owner_write_value)
  with k set low run show ?thesis by blast
qed


theorem interrupt_dispatch_witness:
  "ime (interrupt_scenario 0xFFFE 0x1234) = 1
   \<and> ie (mmu (interrupt_scenario 0xFFFE 0x1234)) AND
       io_value (ioIF (mmu (interrupt_scenario 0xFFFE 0x1234))) AND 0x1F = 0x05
   \<and> sp (interrupt_scenario 0xFFFE 0x1234) = 0xFFFE
   \<and> interrupt (interrupt_scenario 0xFFFE 0x1234)
       = Inr ((interrupt_scenario 0xFFFE 0x1234)
               \<lparr>sp := 0xFFFC, pc := 0x0040, ime := 0,
                mmu := (mmu (interrupt_scenario 0xFFFE 0x1234))
                  \<lparr>zero := (replicate 0x100 0)[0x7C := 0x34, 0x7D := 0x12],
                   ioIF := (ioIF (mmu (interrupt_scenario 0xFFFE 0x1234)))
                     \<lparr>io_value := 0x04, io_read := 0x04, io_write := 0x04\<rparr>\<rparr>\<rparr>)"
proof -
  let ?c = "interrupt_scenario 0xFFFE 0x1234"
  let ?c1 = "?c\<lparr>ime := 0, sp := 0xFFFC,
                 mmu := (mmu ?c)\<lparr>zero := (replicate 0x100 0)[0x7C := 0x34, 0x7D := 0x12]\<rparr>\<rparr>"
  have en: "ime ?c = 1" by (simp add: scenario_fields)
  have pend: "ie (mmu ?c) AND io_value (ioIF (mmu ?c)) AND 0x1F \<noteq> 0"
    by (simp add: scenario_fields)
  have pushed: "push (?c\<lparr>ime := 0\<rparr>) (pc ?c) = Inr ?c1"
    by (simp add: scenario_fields scenario_push_top)
  have s0: "sp ?c \<noteq> 0" and s1: "sp ?c \<noteq> 1"
    by (simp_all add: scenario_fields)
  obtain k c' where k: "k < 5"
    and set: "bit (ie (mmu ?c) AND io_value (ioIF (mmu ?c))) k"
    and low: "\<forall>j<k. \<not> bit (ie (mmu ?c) AND io_value (ioIF (mmu ?c))) j"
    and run: "interrupt ?c = Inr c'"
    and c': "c' = ?c1\<lparr>pc := 0x40 + 8 * of_nat k,
                mmu := (mmu ?c1)\<lparr>ioIF := mmio_writeByte (ioIF (mmu ?c1))
                         (io_value (ioIF (mmu ?c)) AND NOT (2 ^ k)) True\<rparr>\<rparr>"
    using interrupt_dispatch [OF en scenario_keys(1) scenario_keys(2) pend pushed s0 s1]
    by blast
  have "bit (ie (mmu ?c) AND io_value (ioIF (mmu ?c))) 0"
    by (simp add: scenario_fields)
  with low have k0: "k = 0" by auto
  have "interrupt ?c = Inr (?c\<lparr>sp := 0xFFFC, pc := 0x0040, ime := 0,
                mmu := (mmu ?c)
                  \<lparr>zero := (replicate 0x100 0)[0x7C := 0x34, 0x7D := 0x12],
                   ioIF := (ioIF (mmu ?c))
                     \<lparr>io_value := 0x04, io_read := 0x04, io_write := 0x04\<rparr>\<rparr>\<rparr>)"
    unfolding run c' k0
    by (simp add: mmio_writeByte_def Let_def interrupt_scenario_def power_on_def NewMmu_def
        newMmio_def)
  then show ?thesis
    by (simp add: scenario_fields)
qed

section \<open>The boot ROM overlay\<close>

lemma roms_kept_refl: "roms_kept c c"
  by (simp add: roms_kept_def)

lemma roms_kept_trans: "roms_kept c c1 \<Longrightarrow> roms_kept c1 c2 \<Longrightarrow> roms_kept c c2"
  by (simp add: roms_kept_def)

lemma WriteByteAt_rom:
  assumes w: "WriteByteAt m a v k = Inr m'"
  shows "rom m' = rom m"
proof -
  obtain blk st where s: "selectAddressBlock a ''write'' = Inr (blk, st)"
    using w by (cases "selectAddressBlock a ''write''") (auto simp: WriteByteAt_def bindE_def)
  have f: "\<And>ad ow. write_fallthrough m ad v ow = Inr m' \<Longrightarrow> m' = m"
    by (auto simp: write_fallthrough_def split: if_splits prod.splits)
  show ?thesis
    using w
    by (auto simp: WriteByteAt_def s bindE_Inr Let_def split: if_splits
        dest!: f bindE_eq_Inr)
qed

lemma lockAddr_kept: "lockAddr c a = Inr c1 \<Longrightarrow> roms_kept c c1"
proof -
  assume l: "lockAddr c a = Inr c1"
  obtain k m where L: "LockAddr (mmu c) a (mmuKeys c) = Inr (k, m)"
    and c1: "c1 = c\<lparr>mmu := m, mmuKeys := k\<rparr>"
    using lockAddr_result [OF l] by blast
  have "rom m = rom (mmu c)" using LockAddr_result [OF L] by auto
  then show ?thesis by (simp add: roms_kept_def c1)
qed

lemma unlockAddr_kept: "unlockAddr c a = Inr c1 \<Longrightarrow> roms_kept c c1"
proof -
  assume l: "unlockAddr c a = Inr c1"
  obtain k m where L: "UnlockAddr (mmu c) a (mmuKeys c) = Inr (k, m)"
    and c1: "c1 = c\<lparr>mmu := m, mmuKeys := k\<rparr>"
    using unlockAddr_result [OF l] by blast
  have "rom m = rom (mmu c)" using UnlockAddr_result [OF L] by auto
  then show ?thesis by (simp add: roms_kept_def c1)
qed

lemma locked_read_kept:
  assumes "locked_read c region a = Inr (v, c1)"
  shows "roms_kept c c1"
proof -
  obtain c2 where l: "lockAddr c region = Inr c2"
    and r: "bindE (ReadByteAt (mmu c2) a (mmuKeys c2))
              (\<lambda>v. bindE (unlockAddr c2 region) (\<lambda>c3. Inr (v, c3))) = Inr (v, c1)"
    using bindE_eq_Inr [OF assms [unfolded locked_read_def]] by blast
  obtain v2 where u: "bindE (unlockAddr c2 region) (\<lambda>c3. Inr (v2, c3)) = Inr (v, c1)"
    using bindE_eq_Inr [OF r] by blast
  have "unlockAddr c2 region = Inr c1"
    using bindE_eq_Inr [OF u] by auto
  then show ?thesis
    using lockAddr_kept [OF l] unlockAddr_kept roms_kept_trans by blast
qed

lemma readByte_kept:
  assumes r: "readByte c a = Inr (v, c1)"
  shows "roms_kept c c1"
proof -
  consider (b) "(\<not> biosFinished c \<and> a \<le> 0xFF) = True"
    | (v) "(\<not> biosFinished c \<and> a \<le> 0xFF) = False" "(AddrVRam \<le> a \<and> a \<le> AddrRam) = True"
    | (o) "(\<not> biosFinished c \<and> a \<le> 0xFF) = False" "(AddrVRam \<le> a \<and> a \<le> AddrRam) = False"
        "(AddrOam \<le> a \<and> a \<le> AddrOamEnd) = True"
    | (d) "(\<not> biosFinished c \<and> a \<le> 0xFF) = False" "(AddrVRam \<le> a \<and> a \<le> AddrRam) = False"
        "(AddrOam \<le> a \<and> a \<le> AddrOamEnd) = False"
    by blast
  then show ?thesis
  proof cases
    case b
    have "bindE (index (bios c) a) (\<lambda>v. Inr (v, c)) = Inr (v, c1)"
      using r unfolding readByte_def by (simp only: b if_True)
    then have "c1 = c" using bindE_eq_Inr by fastforce
    then show ?thesis by (simp add: roms_kept_refl)
  next
    case v
    have "locked_read c AddrVRam a = Inr (v, c1)"
      using r unfolding readByte_def by (simp only: v if_True if_False)
    then show ?thesis by (rule locked_read_kept)
  next
    case o
    have "locked_read c AddrOam a = Inr (v, c1)"
      using r unfolding readByte_def by (simp only: o if_True if_False)
    then show ?thesis by (rule locked_read_kept)
  next
    case d
    have "bindE (ReadByteAt (mmu c) a (mmuKeys c)) (\<lambda>v. Inr (v, c)) = Inr (v, c1)"
      using r unfolding readByte_def by (simp only: d if_True if_False)
    then have "c1 = c" using bindE_eq_Inr by fastforce
    then show ?thesis by (simp add: roms_kept_refl)
  qed
qed

lemma locked_write_kept:
  assumes lw: "locked_write c region a v = Inr c1"
  shows "roms_kept c c1"
proof -
  obtain c2 where l: "lockAddr c region = Inr c2"
    and r2: "bindE (WriteByteAt (mmu c2) a v (mmuKeys c2)) (\<lambda>m. unlockAddr (c2\<lparr>mmu := m\<rparr>) region)
             = Inr c1"
    using bindE_eq_Inr [OF lw [unfolded locked_write_def]] by blast
  obtain m3 where w: "WriteByteAt (mmu c2) a v (mmuKeys c2) = Inr m3"
    and u: "unlockAddr (c2\<lparr>mmu := m3\<rparr>) region = Inr c1"
    using bindE_eq_Inr [OF r2] by blast
  have "roms_kept c2 (c2\<lparr>mmu := m3\<rparr>)"
    using WriteByteAt_rom [OF w] by (simp add: roms_kept_def)
  then show ?thesis
    using lockAddr_kept [OF l] unlockAddr_kept [OF u] roms_kept_trans by blast
qed

lemma writeByte_kept:
  assumes w: "writeByte c a v = Inr c1"
  shows "roms_kept c c1"
proof -
  consider (v) "(AddrVRam \<le> a \<and> a \<le> AddrRam) = True"
    | (o) "(AddrVRam \<le> a \<and> a \<le> AddrRam) = False" "(AddrOam \<le> a \<and> a \<le> AddrOamEnd) = True"
    | (d) "(AddrVRam \<le> a \<and> a \<le> AddrRam) = False" "(AddrOam \<le> a \<and> a \<le> AddrOamEnd) = False"
    by blast
  then show ?thesis
  proof cases
    case v
    have "locked_write c AddrVRam a v = Inr c1"
      using w unfolding writeByte_def by (simp only: v if_True if_False)
    then show ?thesis by (rule locked_write_kept)
  next
    case o
    have "locked_write c AddrOam a v = Inr c1"
      using w unfolding writeByte_def by (simp only: o if_True if_False)
    then show ?thesis by (rule locked_write_kept)
  next
    case d
    have "bindE (WriteByteAt (mmu c) a v (mmuKeys c)) (\<lambda>m. Inr (c\<lparr>mmu := m\<rparr>)) = Inr c1"
      using w unfolding writeByte_def by (simp only: d if_True if_False)
    then obtain m where m: "WriteByteAt (mmu c) a v (mmuKeys c) = Inr m"
      and c1: "c1 = c\<lparr>mmu := m\<rparr>"
      using bindE_eq_Inr by fastforce
    show ?thesis
      using WriteByteAt_rom [OF m] by (simp add: roms_kept_def c1)
  qed
qed


lemma ReadIoByte_rom:
  assumes "ReadIoByte m a k = Inr (r, m')"
  shows "rom m' = rom m"
proof -
  obtain blk st where s: "selectAddressBlock a ''write'' = Inr (blk, st)"
    using assms by (cases "selectAddressBlock a ''write''") (auto simp: ReadIoByte_def bindE_def)
  show ?thesis
    using assms
    by (auto simp: ReadIoByte_def s bindE_Inr Let_def split: if_splits prod.splits
        dest!: bindE_eq_Inr)
qed

lemma push_kept:
  assumes p: "push c w = Inr c1"
  shows "roms_kept c c1"
proof -
  obtain c3 where ww: "writeWord c (sp c - 2) w = Inr c3" and c1: "c1 = c3\<lparr>sp := sp c3 - 2\<rparr>"
    using bindE_eq_Inr [OF p [unfolded push_def]] by auto
  obtain c2 where w1: "writeByte c (sp c - 2) (Low w) = Inr c2"
    and w2: "writeByte c2 (sp c - 2 + 1) (High w) = Inr c3"
    using bindE_eq_Inr [OF ww [unfolded writeWord_def]] by auto
  have "roms_kept c3 c1" by (simp add: roms_kept_def c1)
  then show ?thesis
    using writeByte_kept [OF w1] writeByte_kept [OF w2] roms_kept_trans by blast
qed

lemma io_kept:
  assumes "io c = Inr c1"
  shows "roms_kept c c1"
proof (cases "ReadIoByte (mmu c) AddrIF (mmuKeys c)")
  case (Inl e)
  then show ?thesis using assms by (simp add: io_def bindE_Inl)
next
  case (Inr z)
  obtain iflag q m where z: "z = ((iflag, q), m)" by (cases z) auto
  let ?c2 = "c\<lparr>mmu := m\<rparr>"
  have k2: "roms_kept c ?c2"
    using ReadIoByte_rom [OF Inr [unfolded z]] by (simp add: roms_kept_def)
  show ?thesis
  proof (cases "ime c = 0")
    case True
    then have "writeByte ?c2 AddrIF 0 = Inr c1"
      using assms by (simp add: io_def Inr z bindE_Inr Let_def)
    then show ?thesis using k2 writeByte_kept roms_kept_trans by blast
  next
    case False
    then have b: "bindE (readByte ?c2 AddrIE) (\<lambda>(e, c3). writeByte c3 AddrIF (iflag AND e)) = Inr c1"
      using assms by (simp add: io_def Inr z bindE_Inr Let_def)
    show ?thesis
    proof (cases "readByte ?c2 AddrIE")
      case (Inl e)
      then show ?thesis using b by (simp add: bindE_Inl)
    next
      case (Inr y)
      obtain e c3 where y: "y = (e, c3)" by (cases y)
      have "writeByte c3 AddrIF (iflag AND e) = Inr c1"
        using b by (simp add: Inr y bindE_Inr)
      then have "roms_kept c3 c1" by (rule writeByte_kept)
      moreover have "roms_kept ?c2 c3" using readByte_kept Inr y by blast
      ultimately show ?thesis using k2 roms_kept_trans by blast
    qed
  qed
qed

lemma interrupt_kept:
  assumes i: "interrupt c = Inr c1"
  shows "roms_kept c c1"
proof (cases "ime c = 1")
  case False
  then have "c1 = c" using i by (simp add: interrupt_def)
  then show ?thesis by (simp add: roms_kept_refl)
next
  case en: True
  show ?thesis
  proof (cases "readByte c AddrIE")
    case (Inl e)
    then show ?thesis using i en by (simp add: interrupt_def bindE_Inl)
  next
    case r1: (Inr y)
    obtain e c2 where y: "y = (e, c2)" by (cases y)
    have k2: "roms_kept c c2" using readByte_kept r1 y by blast
    show ?thesis
    proof (cases "readByte c2 AddrIF")
      case (Inl e)
      then show ?thesis using i en by (simp add: interrupt_def r1 y bindE_Inr bindE_Inl)
    next
      case r2: (Inr x)
      obtain iflag c3 where x: "x = (iflag, c3)" by (cases x)
      have k3: "roms_kept c2 c3" using readByte_kept r2 x by blast
      show ?thesis
      proof (cases "getInterrupt e iflag > 0")
        case False
        then have "c1 = c3"
          using i en by (simp add: interrupt_def r1 y r2 x bindE_Inr Let_def)
        then show ?thesis using k2 k3 roms_kept_trans by blast
      next
        case True
        then have b: "bindE (push (c3\<lparr>ime := 0\<rparr>) (pc c3))
                 (\<lambda>c4. resetInterrupt (jp c4 (Address (getInterrupt e iflag)))
                         (getInterrupt e iflag) iflag) = Inr c1"
          using i en by (simp add: interrupt_def r1 y r2 x bindE_Inr Let_def)
        show ?thesis
        proof (cases "push (c3\<lparr>ime := 0\<rparr>) (pc c3)")
          case (Inl e)
          then show ?thesis using b by (simp add: bindE_Inl)
        next
          case p: (Inr c4)
          have w: "writeByte (jp c4 (Address (getInterrupt e iflag))) AddrIF
                     (iflag AND (getInterrupt e iflag XOR 0xFF)) = Inr c1"
            using b by (simp add: p bindE_Inr resetInterrupt_def)
          have a: "roms_kept c3 (c3\<lparr>ime := 0\<rparr>)" by (simp add: roms_kept_def)
          have d: "roms_kept c4 (jp c4 (Address (getInterrupt e iflag)))"
            by (simp add: roms_kept_def jp_def)
          have "roms_kept c c3" using k2 k3 by (rule roms_kept_trans)
          then have "roms_kept c (c3\<lparr>ime := 0\<rparr>)" using a by (rule roms_kept_trans)
          then have "roms_kept c c4" using push_kept [OF p] by (rule roms_kept_trans)
          then have "roms_kept c (jp c4 (Address (getInterrupt e iflag)))"
            using d by (rule roms_kept_trans)
          then show ?thesis using writeByte_kept [OF w] by (rule roms_kept_trans)
        qed
      qed
    qed
  qed
qed



lemma fetch_operands_kept:
  "fetch_operands n c ps = Inr (qs, c1) \<Longrightarrow> roms_kept c c1"
proof (induction n arbitrary: c ps)
  case 0
  then show ?case by (simp add: roms_kept_refl)
next
  case (Suc n)
  show ?case
  proof (cases "readByte c (pc c)")
    case (Inl e)
    then show ?thesis using Suc.prems by (simp add: bindE_Inl)
  next
    case (Inr y)
    obtain v c2 where y: "y = (v, c2)" by (cases y)
    have "fetch_operands n (c2\<lparr>pc := pc c2 + 1\<rparr>) (ps @ [v]) = Inr (qs, c1)"
      using Suc.prems by (simp add: Inr y bindE_Inr)
    then have "roms_kept (c2\<lparr>pc := pc c2 + 1\<rparr>) c1" by (rule Suc.IH)
    moreover have "roms_kept c2 (c2\<lparr>pc := pc c2 + 1\<rparr>)" by (simp add: roms_kept_def)
    moreover have "roms_kept c c2" using readByte_kept Inr y by blast
    ultimately show ?thesis using roms_kept_trans by blast
  qed
qed

lemma fetch_kept:
  assumes f: "fetch tbl c = Inr c1"
  shows "roms_kept c c1"
proof (cases "readByte c (pc c)")
  case (Inl e)
  then show ?thesis using f by (simp add: fetch_def bindE_Inl)
next
  case r1: (Inr y)
  obtain v c2 where y: "y = (v, c2)" by (cases y)
  let ?c3 = "c2\<lparr>pc := pc c2 + 1\<rparr>"
  have k3: "roms_kept c ?c3"
    using readByte_kept [OF r1 [unfolded y]] by (simp add: roms_kept_def)
  let ?pre = "if (ucast v :: opcode) = 0xCB then
                bindE (readByte ?c3 (pc ?c3))
                  (\<lambda>(v2, c4). Inr (0xCB00 + ucast v2 :: opcode, c4\<lparr>pc := pc c4 + 1\<rparr>))
              else Inr (ucast v :: opcode, ?c3)"
  have b: "bindE ?pre
             (\<lambda>(op2, c4).
                bindE (fetch_operands
                         (unat (case tbl op2 of None \<Rightarrow> 0 | Some cmd \<Rightarrow> cmd_b cmd)) c4 [])
                  (\<lambda>(ps, c5). Inr (c5\<lparr>inst := newInstruction op2 ps\<rparr>))) = Inr c1"
    using f by (simp add: fetch_def r1 y bindE_Inr Let_def)
  show ?thesis
  proof (cases ?pre)
    case (Inl e)
    show ?thesis using b unfolding Inl bindE_Inl by simp
  next
    case p: (Inr z)
    obtain op2 c4 where z: "z = (op2, c4)" by (cases z)
    have k4: "roms_kept ?c3 c4"
    proof (cases "(ucast v :: opcode) = 0xCB")
      case False
      then have "c4 = ?c3" using p z by simp
      then show ?thesis by (simp add: roms_kept_refl)
    next
      case True
      then have q: "bindE (readByte ?c3 (pc ?c3))
                  (\<lambda>(v2, c4). Inr (0xCB00 + ucast v2 :: opcode, c4\<lparr>pc := pc c4 + 1\<rparr>))
                = Inr (op2, c4)"
        using p z by simp
      show ?thesis
      proof (cases "readByte ?c3 (pc ?c3)")
        case (Inl e)
        show ?thesis using q unfolding Inl bindE_Inl by simp
      next
        case (Inr x)
        obtain v2 c6 where x: "x = (v2, c6)" by (cases x)
        have "c4 = c6\<lparr>pc := pc c6 + 1\<rparr>" using q unfolding Inr x bindE_Inr by simp
        then have "roms_kept c6 c4" by (simp add: roms_kept_def)
        moreover have "roms_kept ?c3 c6" using readByte_kept Inr x by blast
        ultimately show ?thesis using roms_kept_trans by blast
      qed
    qed
    let ?n = "unat (case tbl op2 of None \<Rightarrow> 0 | Some cmd \<Rightarrow> cmd_b cmd)"
    have g: "bindE (fetch_operands ?n c4 [])
               (\<lambda>(ps, c5). Inr (c5\<lparr>inst := newInstruction op2 ps\<rparr>)) = Inr c1"
      using b unfolding p z bindE_Inr prod.case .
    show ?thesis
    proof (cases "fetch_operands ?n c4 []")
      case (Inl e)
      then show ?thesis using g by (simp add: bindE_Inl)
    next
      case (Inr w)
      obtain ps c5 where w: "w = (ps, c5)" by (cases w)
      have "c1 = c5\<lparr>inst := newInstruction op2 ps\<rparr>" using g by (simp add: Inr w bindE_Inr)
      then have "roms_kept c5 c1" by (simp add: roms_kept_def)
      moreover have "roms_kept c4 c5" using fetch_operands_kept Inr w by blast
      ultimately show ?thesis using k3 k4 roms_kept_trans by blast
    qed
  qed
qed

lemma execute_kept:
  assumes t: "executors_keep_roms tbl" and e: "execute tbl c = Inr c1"
  shows "roms_kept c c1"
proof (cases "tbl (inst_o (inst c))")
  case None
  then have "c1 = c" using e by (simp add: execute_def)
  then show ?thesis by (simp add: roms_kept_refl)
next
  case (Some cmd)
  show ?thesis
  proof (cases "cmd_f cmd c")
    case (Inl x)
    then show ?thesis using e by (simp add: execute_def Some bindE_Inl)
  next
    case (Inr c2)
    have "c1 = c2\<lparr>m_cycles := m_cycles c2 + cmd_t cmd * 4, t_cycles := t_cycles c2 + cmd_t cmd\<rparr>"
      using e by (simp add: execute_def Some Inr bindE_Inr)
    then have "roms_kept c2 c1" by (simp add: roms_kept_def)
    moreover have "roms_kept c c2"
      using t Some Inr unfolding executors_keep_roms_def by blast
    ultimately show ?thesis by (rule roms_kept_trans [rotated])
  qed
qed


lemma step_effect:
  assumes t: "executors_keep_roms tbl" and s: "step tbl c = Inr c1"
  shows "bios c1 = bios c \<and> rom (mmu c1) = rom (mmu c)
       \<and> biosFinished c1 = (biosFinished c \<or> pc c = 0x0100)"
proof -
  let ?c0 = "c\<lparr>m_cycles := 0, t_cycles := 0\<rparr>"
  let ?s = "if \<not> biosFinished ?c0 \<and> pc ?c0 = 0x0100 then ?c0\<lparr>biosFinished := True\<rparr> else ?c0"
  have start: "bios ?s = bios c \<and> rom (mmu ?s) = rom (mmu c)
       \<and> biosFinished ?s = (biosFinished c \<or> pc c = 0x0100)"
    by auto
  have b: "bindE (io ?s)
           (\<lambda>c2. bindE (interrupt c2)
              (\<lambda>c3. bindE (fetch tbl c3)
                 (\<lambda>c4. bindE (lockAddr c4 AddrGpuRegs)
                    (\<lambda>c5. bindE (execute tbl c5)
                       (\<lambda>c6. unlockAddr c6 AddrGpuRegs))))) = Inr c1"
    using s unfolding step_def Let_def .
  obtain c2 where i: "io ?s = Inr c2"
    and b2: "bindE (interrupt c2)
              (\<lambda>c3. bindE (fetch tbl c3)
                 (\<lambda>c4. bindE (lockAddr c4 AddrGpuRegs)
                    (\<lambda>c5. bindE (execute tbl c5)
                       (\<lambda>c6. unlockAddr c6 AddrGpuRegs)))) = Inr c1"
    using bindE_eq_Inr [OF b] by blast
  obtain c3 where n: "interrupt c2 = Inr c3"
    and b3: "bindE (fetch tbl c3)
                 (\<lambda>c4. bindE (lockAddr c4 AddrGpuRegs)
                    (\<lambda>c5. bindE (execute tbl c5)
                       (\<lambda>c6. unlockAddr c6 AddrGpuRegs))) = Inr c1"
    using bindE_eq_Inr [OF b2] by blast
  obtain c4 where f: "fetch tbl c3 = Inr c4"
    and b4: "bindE (lockAddr c4 AddrGpuRegs)
                    (\<lambda>c5. bindE (execute tbl c5)
                       (\<lambda>c6. unlockAddr c6 AddrGpuRegs)) = Inr c1"
    using bindE_eq_Inr [OF b3] by blast
  obtain c5 where l: "lockAddr c4 AddrGpuRegs = Inr c5"
    and b5: "bindE (execute tbl c5) (\<lambda>c6. unlockAddr c6 AddrGpuRegs) = Inr c1"
    using bindE_eq_Inr [OF b4] by blast
  obtain c6 where e: "execute tbl c5 = Inr c6" and u: "unlockAddr c6 AddrGpuRegs = Inr c1"
    using bindE_eq_Inr [OF b5] by blast
  have "roms_kept ?s c2" using i by (rule io_kept)
  then have "roms_kept ?s c3" using interrupt_kept [OF n] by (rule roms_kept_trans)
  then have "roms_kept ?s c4" using fetch_kept [OF f] by (rule roms_kept_trans)
  then have "roms_kept ?s c5" using lockAddr_kept [OF l] by (rule roms_kept_trans)
  then have "roms_kept ?s c6" using execute_kept [OF t e] by (rule roms_kept_trans)
  then have "roms_kept ?s c1" using unlockAddr_kept [OF u] by (rule roms_kept_trans)
  then have "bios c1 = bios ?s \<and> rom (mmu c1) = rom (mmu ?s) \<and> biosFinished c1 = biosFinished ?s"
    unfolding roms_kept_def by blast
  with start show ?thesis by simp
qed

lemma run_effect:
  assumes t: "executors_keep_roms tbl"
  shows "run tbl n c = Inr c1 \<Longrightarrow>
     bios c1 = bios c \<and> rom (mmu c1) = rom (mmu c)
     \<and> biosFinished c1
         = (biosFinished c \<or> (\<exists>k<n. \<exists>ck. run tbl k c = Inr ck \<and> pc ck = 0x0100))"
proof (induction n arbitrary: c)
  case 0
  then show ?case by simp
next
  case (Suc n)
  show ?case
  proof (cases "step tbl c")
    case (Inl e)
    then show ?thesis using Suc.prems by (simp add: bindE_Inl)
  next
    case (Inr c2)
    have r: "run tbl n c2 = Inr c1" using Suc.prems by (simp add: Inr bindE_Inr)
    note ih = Suc.IH [OF r]
    note se = step_effect [OF t Inr]
    have shift: "\<And>k. run tbl (Suc k) c = run tbl k c2" by (simp add: Inr bindE_Inr)
    have "(\<exists>k<Suc n. \<exists>ck. run tbl k c = Inr ck \<and> pc ck = 0x0100)
          = (pc c = 0x0100 \<or> (\<exists>k<n. \<exists>ck. run tbl k c2 = Inr ck \<and> pc ck = 0x0100))"
    proof
      assume "\<exists>k<Suc n. \<exists>ck. run tbl k c = Inr ck \<and> pc ck = 0x0100"
      then obtain k ck where k: "k < Suc n" and rk: "run tbl k c = Inr ck" and p: "pc ck = 0x0100"
        by blast
      show "pc c = 0x0100 \<or> (\<exists>k<n. \<exists>ck. run tbl k c2 = Inr ck \<and> pc ck = 0x0100)"
      proof (cases k)
        case 0
        then show ?thesis using rk p by simp
      next
        case (Suc j)
        then have "j < n" and "run tbl j c2 = Inr ck" using k rk shift by simp_all
        then show ?thesis using p by blast
      qed
    next
      assume "pc c = 0x0100 \<or> (\<exists>k<n. \<exists>ck. run tbl k c2 = Inr ck \<and> pc ck = 0x0100)"
      then show "\<exists>k<Suc n. \<exists>ck. run tbl k c = Inr ck \<and> pc ck = 0x0100"
      proof
        assume "pc c = 0x0100"
        then have "run tbl 0 c = Inr c \<and> pc c = 0x0100" by simp
        then show ?thesis by blast
      next
        assume "\<exists>k<n. \<exists>ck. run tbl k c2 = Inr ck \<and> pc ck = 0x0100"
        then obtain k ck where "k < n" and "run tbl k c2 = Inr ck" and "pc ck = 0x0100" by blast
        then have "Suc k < Suc n" and "run tbl (Suc k) c = Inr ck \<and> pc ck = 0x0100"
          using shift by simp_all
        then show ?thesis by blast
      qed
    qed
    with ih se show ?thesis by auto
  qed
qed


lemmas step_eval = step_def io_def interrupt_def fetch_def execute_def lockAddr_def unlockAddr_def
      readByte_def writeByte_def ReadIoByte_def ReadByteAt_def WriteByteAt_def LockAddr_def
      UnlockAddr_def selectAddressBlock_def mmio_readIoByte_def mmio_writeByte_def
      mmio_readByte_def getInterrupt_def index_def bindE_def Let_def nop_table_def nop_entry_def
      newInstruction_def newMmio_def boot_scenario_def power_on_def NewMmu_def addr_defs ab_defs
      InterruptVblank_def InterruptLCDC_def InterruptTimer_def InterruptSerial_def
      InterruptKeypad_def nth_append

lemma boot_step1: "step nop_table (boot_scenario 0x00FF False) = Inr (boot_scenario 0x0100 False)"
  by (simp add: step_eval)

lemma boot_step2: "step nop_table (boot_scenario 0x0100 False) = Inr (boot_scenario 0x0101 True)"
  by (simp add: step_eval)

lemma boot_run1: "run nop_table 1 (boot_scenario 0x00FF False) = Inr (boot_scenario 0x0100 False)"
  by (simp add: boot_step1 bindE_Inr)

lemma boot_run2: "run nop_table 2 (boot_scenario 0x00FF False) = Inr (boot_scenario 0x0101 True)"
  by (simp add: numeral_2_eq_2 boot_step1 boot_step2 bindE_Inr)


lemma overlay_range:
  assumes "(a::Word) \<le> 0xFF"
  shows "unat a < 0x100" and "a < 0x8000"
    and "(0x8000 \<le> a \<and> a \<le> 0xC000) = False" and "(0xFE00 \<le> a \<and> a \<le> 0xFEA0) = False"
  using assms by unat_arith+

lemma readByte_overlay:
  assumes m: "\<not> biosFinished c" and a: "a \<le> 0xFF" and l: "length (bios c) = 0x100"
  shows "readByte c a = Inr (bios c ! unat a, c)"
  using overlay_range(1) [OF a] by (simp add: readByte_def m a l index_def bindE_Inr)

lemma readByte_cartridge:
  assumes f: "biosFinished c" and a: "a \<le> 0xFF"
    and k: "mmuKeys c AND abRom = abRom" and l: "unat a < length (rom (mmu c))"
  shows "readByte c a = Inr (rom (mmu c) ! unat a, c)"
proof -
  have s: "selectAddressBlock a ''read'' = Inr (abRom, 0)"
    using overlay_range(2) [OF a] by (simp add: selectAddressBlock_def AddrVRam_def)
  have r: "ReadByteAt (mmu c) a (mmuKeys c) = Inr (rom (mmu c) ! unat a)"
    unfolding ReadByteAt_def s bindE_Inr using k l by (simp add: Let_def index_def)
  have b: "(\<not> biosFinished c \<and> a \<le> 0xFF) = False" using f by simp
  show ?thesis
    unfolding readByte_def addr_defs
    by (simp only: b overlay_range(3,4) [OF a] if_False r bindE_Inr)
qed

lemma power_on_boot_rom:
  "bs \<noteq> [] \<Longrightarrow>
     \<not> biosFinished (power_on cart bs) \<and> length (bios (power_on cart bs)) = 0x100
     \<and> mmuKeys (power_on cart bs) AND abRom = abRom"
  by (simp add: power_on_def ab_defs)

lemma nop_table_keeps_roms: "executors_keep_roms nop_table"
  by (simp add: executors_keep_roms_def nop_table_def nop_entry_def roms_kept_def)

text \<open>
  Claim C6. Let a run of \<open>n\<close> steps from a state \<open>c\<close> end in \<open>c1\<close> (the executors of the
  table leaving the boot ROM, its flag and the cartridge ROM alone). The boot ROM and
  the cartridge ROM are unchanged. The overlay is unmapped in \<open>c1\<close> exactly when it was
  unmapped in \<open>c\<close> or one of the \<open>n\<close> steps started with PC = 0x0100; so it is never
  mapped again. For every address up to 0xFF: while the overlay is mapped, \<open>readByte\<close>
  returns the boot ROM byte; once it is unmapped, \<open>readByte\<close> returns the cartridge ROM
  byte (the Cpu holding the ROM key and the cartridge having a byte there).
\<close>

theorem boot_rom_overlay:
  assumes tbl: "executors_keep_roms tbl" and r: "run tbl n c = Inr c1" and a: "a \<le> 0xFF"
  shows "bios c1 = bios c \<and> rom (mmu c1) = rom (mmu c)
       \<and> biosFinished c1
           = (biosFinished c \<or> (\<exists>k<n. \<exists>ck. run tbl k c = Inr ck \<and> pc ck = 0x0100))
       \<and> (biosFinished c \<longrightarrow> biosFinished c1)
       \<and> (\<not> biosFinished c1 \<longrightarrow> length (bios c) = 0x100 \<longrightarrow>
            readByte c1 a = Inr (bios c ! unat a, c1))
       \<and> (biosFinished c1 \<longrightarrow> mmuKeys c1 AND abRom = abRom \<longrightarrow>
            unat a < length (rom (mmu c)) \<longrightarrow>
            readByte c1 a = Inr (rom (mmu c) ! unat a, c1))"
proof -
  note e = run_effect [OF tbl r]
  have b: "bios c1 = bios c" and m: "rom (mmu c1) = rom (mmu c)"
    using e by simp_all
  have f: "biosFinished c1
           = (biosFinished c \<or> (\<exists>k<n. \<exists>ck. run tbl k c = Inr ck \<and> pc ck = 0x0100))"
    using e by blast
  have o: "\<not> biosFinished c1 \<longrightarrow> length (bios c) = 0x100 \<longrightarrow>
            readByte c1 a = Inr (bios c ! unat a, c1)"
    using readByte_overlay [of c1 a] a b by simp
  have g: "biosFinished c1 \<longrightarrow> mmuKeys c1 AND abRom = abRom \<longrightarrow>
            unat a < length (rom (mmu c)) \<longrightarrow>
            readByte c1 a = Inr (rom (mmu c) ! unat a, c1)"
    using readByte_cartridge [of c1 a] a m by simp
  from b m f o g show ?thesis by blast
qed

theorem boot_rom_overlay_witness:
  "executors_keep_roms nop_table
   \<and> run nop_table 1 (boot_scenario 0x00FF False) = Inr (boot_scenario 0x0100 False)
   \<and> readByte (boot_scenario 0x0100 False) 0x0000 = Inr (0xAA, boot_scenario 0x0100 False)
   \<and> run nop_table 2 (boot_scenario 0x00FF False) = Inr (boot_scenario 0x0101 True)
   \<and> readByte (boot_scenario 0x0101 True) 0x0000 = Inr (0x55, boot_scenario 0x0101 True)"
proof -
  have a: "(0x0000 :: Word) \<le> 0xFF" by simp
  note one = boot_rom_overlay [OF nop_table_keeps_roms boot_run1 a]
  note two = boot_rom_overlay [OF nop_table_keeps_roms boot_run2 a]
  have f: "\<not> biosFinished (boot_scenario 0x0100 False)" "biosFinished (boot_scenario 0x0101 True)"
    "length (bios (boot_scenario 0x00FF False)) = 0x100"
    "bios (boot_scenario 0x00FF False) ! unat (0x0000 :: Word) = 0xAA"
    "mmuKeys (boot_scenario 0x0101 True) AND abRom = abRom"
    "unat (0x0000 :: Word) < length (rom (mmu (boot_scenario 0x00FF False)))"
    "rom (mmu (boot_scenario 0x00FF False)) ! unat (0x0000 :: Word) = 0x55"
    by (simp_all add: boot_scenario_def power_on_def NewMmu_def ab_defs)
  have 1: "readByte (boot_scenario 0x0100 False) 0x0000 = Inr (0xAA, boot_scenario 0x0100 False)"
    using one f by simp
  have 2: "readByte (boot_scenario 0x0101 True) 0x0000 = Inr (0x55, boot_scenario 0x0101 True)"
    using two f by simp
  from nop_table_keeps_roms boot_run1 boot_run2 1 2 show ?thesis by blast
qed


end
